theory Spec2Isabelle
  imports Main "HOL-Library.Sublist"
begin

section \<open>The XMake configuration provider for the C/C++ tools\<close>

text \<open>
  A shallow embedding of \<^verbatim>\<open>src/cpp_custom_configuration_provider.ts\<close>: the helpers that
  read one compile command's argument vector, the provider class with its five maps, the
  rebuild entry point \<^verbatim>\<open>updateCompileCommands\<close> and the file query
  \<^verbatim>\<open>provideConfigurations\<close>.

  JavaScript strings are modelled as \<^typ>\<open>string\<close>; \<^verbatim>\<open>undefined\<close> is \<open>None\<close>; a thrown
  exception is a value of type \<open>error\<close>.
\<close>

subsection \<open>Strings\<close>

text \<open>\<^verbatim>\<open>s.startsWith(p)\<close>, \<^verbatim>\<open>s.substring(n)\<close> and \<^verbatim>\<open>s.toLowerCase()\<close>. The lower-casing
  maps the letters A to Z; every other character is left as it is.\<close>

definition startsWith :: "string \<Rightarrow> string \<Rightarrow> bool" where
  "startsWith s p = (take (length p) s = p)"

definition substring :: "string \<Rightarrow> nat \<Rightarrow> string" where
  "substring s n = drop n s"

definition lowerChar :: "char \<Rightarrow> char" where
  "lowerChar c =
     (case map_of (zip ''ABCDEFGHIJKLMNOPQRSTUVWXYZ'' ''abcdefghijklmnopqrstuvwxyz'') c of
        None \<Rightarrow> c
      | Some l \<Rightarrow> l)"

definition toLowerCase :: "string \<Rightarrow> string" where
  "toLowerCase s = map lowerChar s"

subsection \<open>Errors and the values of JSON.parse\<close>

datatype error = TypeError | UriError

text \<open>The database handed to the provider is \<^verbatim>\<open>JSON.parse(data.toString())\<close>, so it is any
  JSON value. Only the type of a number is ever inspected.\<close>

datatype json =
    JNull
  | JBool bool
  | JNumber int
  | JString string
  | JArray "json list"
  | JObject "(string \<times> json) list"

text \<open>\<^verbatim>\<open>typeof v\<close>, with \<open>None\<close> for \<^verbatim>\<open>undefined\<close>.\<close>

fun typeof :: "json option \<Rightarrow> string" where
  "typeof None = ''undefined''"
| "typeof (Some JNull) = ''object''"
| "typeof (Some (JBool b)) = ''boolean''"
| "typeof (Some (JNumber n)) = ''number''"
| "typeof (Some (JString s)) = ''string''"
| "typeof (Some (JArray xs)) = ''object''"
| "typeof (Some (JObject kvs)) = ''object''"

text \<open>\<^verbatim>\<open>v.k\<close> for one of the keys \<^verbatim>\<open>directory\<close>, \<^verbatim>\<open>file\<close>, \<^verbatim>\<open>arguments\<close>: reading a property of
  \<^verbatim>\<open>null\<close> throws; an object parsed from JSON holds the last value given for a repeated
  key; every other value has no such property.\<close>

fun getProperty :: "json \<Rightarrow> string \<Rightarrow> error + json option" where
  "getProperty JNull k = Inl TypeError"
| "getProperty (JObject kvs) k = Inr (map_of (rev kvs) k)"
| "getProperty v k = Inr None"

text \<open>The helpers below declare \<^verbatim>\<open>args: string[]\<close>, and are called with \<^verbatim>\<open>cmd.arguments\<close>, of
  which only \<^verbatim>\<open>typeof == 'object'\<close> is known. The first helper called,
  \<^verbatim>\<open>findIncludePaths\<close>, throws a TypeError on every value that is not an array of strings:
  \<^verbatim>\<open>null[1]\<close> throws, \<^verbatim>\<open>path.basename\<close> refuses a non-string, \<^verbatim>\<open>args.filter\<close> is not a function
  on an object that is no array, and \<^verbatim>\<open>arg.startsWith\<close> is not a function on an element that
  is no string. \<open>stringArray\<close> is that run-time check; arrays that are too short are left to
  the helpers.\<close>

fun stringOf :: "json \<Rightarrow> string option" where
  "stringOf (JString s) = Some s"
| "stringOf v = None"

fun stringArray :: "json \<Rightarrow> error + string list" where
  "stringArray (JArray xs) =
     (if list_all (\<lambda>x. stringOf x \<noteq> None) xs then Inr (map (\<lambda>x. the (stringOf x)) xs)
      else Inl TypeError)"
| "stringArray v = Inl TypeError"

subsection \<open>The host: Node's path module and the editor's workspace\<close>

text \<open>The source imports \<^verbatim>\<open>path\<close> and \<^verbatim>\<open>vscode\<close>; neither is code of the repository, so both
  are parameters of the model. \<open>path_join\<close> is \<^verbatim>\<open>path.join\<close> at two arguments. \<open>Uri_file\<close> is
  \<^verbatim>\<open>Uri.file\<close>, which may reject a path, \<open>fsPath\<close> reads \<^verbatim>\<open>uri.fsPath\<close>, and
  \<open>workspaceFolders\<close> is \<^verbatim>\<open>vscode.workspace.workspaceFolders\<close> as the list of each folder's
  \<^verbatim>\<open>uri.fsPath\<close>, \<open>None\<close> while no folder is open.\<close>

record pathmod =
  path_basename :: "string \<Rightarrow> string"
  path_isAbsolute :: "string \<Rightarrow> bool"
  path_join :: "string \<Rightarrow> string \<Rightarrow> string"
  path_relative :: "string \<Rightarrow> string \<Rightarrow> string"

record 'u vscode =
  Uri_file :: "string \<Rightarrow> error + 'u"
  fsPath :: "'u \<Rightarrow> string"
  workspaceFolders :: "string list option"

subsection \<open>The argument helpers (lines 6 to 100)\<close>

text \<open>\<^verbatim>\<open>args[1]\<close> is \<^verbatim>\<open>undefined\<close> on an array of fewer than two elements, and
  \<^verbatim>\<open>path.basename(undefined)\<close> throws a TypeError.\<close>

definition index1 :: "string list \<Rightarrow> string option" where
  "index1 args = (if 1 < length args then Some (args ! 1) else None)"

definition isMSVC :: "pathmod \<Rightarrow> string list \<Rightarrow> error + bool" where
  "isMSVC path args =
     (case index1 args of
        None \<Rightarrow> Inl TypeError
      | Some a \<Rightarrow> Inr (toLowerCase (path_basename path a) = ''cl''))"

definition findIncludePaths :: "pathmod \<Rightarrow> string \<Rightarrow> string list \<Rightarrow> error + string list" where
  "findIncludePaths path dir args =
     (case isMSVC path args of
        Inl e \<Rightarrow> Inl e
      | Inr msvc \<Rightarrow>
          let includeOptionPrefix = (if msvc then ''/I'' else ''-I'') in
          Inr (map (\<lambda>inc. let includePath = substring inc 2 in
                      if path_isAbsolute path includePath then includePath
                      else path_join path dir includePath)
                 (filter (\<lambda>arg. startsWith arg includeOptionPrefix) args)))"

definition findDefines :: "pathmod \<Rightarrow> string list \<Rightarrow> error + string list" where
  "findDefines path args =
     (case isMSVC path args of
        Inl e \<Rightarrow> Inl e
      | Inr msvc \<Rightarrow>
          let defineOptionPrefix = (if msvc then ''/D'' else ''-D'') in
          Inr (map (\<lambda>def. substring def 2)
                 (filter (\<lambda>arg. startsWith arg defineOptionPrefix) args)))"

definition findCompilerPath :: "string list \<Rightarrow> string option" where
  "findCompilerPath args = index1 args"

definition findCompiler :: "pathmod \<Rightarrow> string list \<Rightarrow> error + string" where
  "findCompiler path args =
     (case index1 args of
        None \<Rightarrow> Inl TypeError
      | Some a \<Rightarrow> Inr (toLowerCase (path_basename path a)))"

definition findCompilerArgs :: "pathmod \<Rightarrow> string list \<Rightarrow> error + string list" where
  "findCompilerArgs path args =
     (case isMSVC path args of
        Inl e \<Rightarrow> Inl e
      | Inr msvc \<Rightarrow>
          let optionPrefix = (if msvc then ''/'' else ''-'') in
          Inr (filter (\<lambda>arg. startsWith arg optionPrefix \<and>
                             \<not> startsWith arg (optionPrefix @ ''I'') \<and>
                             \<not> startsWith arg (optionPrefix @ ''D'') \<and>
                             \<not> startsWith arg (optionPrefix @ ''o'') \<and>
                             \<not> startsWith arg (optionPrefix @ ''std'')) args))"

text \<open>The \<^verbatim>\<open>switch\<close> of \<^verbatim>\<open>findStandard\<close>, case by case in the source's order.\<close>

definition standardSwitch :: "string \<Rightarrow> string" where
  "standardSwitch std =
     (if std = ''c89'' then ''c89''
      else if std = ''c99'' then ''c99''
      else if std = ''c11'' then ''c11''
      else if std = ''c17'' then ''c17''
      else if std = ''c++98'' then ''c++98''
      else if std = ''c++03'' then ''c++03''
      else if std = ''c++11'' then ''c++11''
      else if std = ''c++14'' then ''c++14''
      else if std = ''c++17'' then ''c++17''
      else if std = ''c++20'' then ''c++20''
      else if std = ''gnu89'' then ''gnu89''
      else if std = ''gnu99'' then ''gnu99''
      else if std = ''gnu11'' then ''gnu11''
      else if std = ''gnu17'' then ''gnu17''
      else if std = ''gnu++98'' then ''gnu++98''
      else if std = ''gnu++03'' then ''gnu++03''
      else if std = ''gnu++11'' then ''gnu++11''
      else if std = ''gnu++14'' then ''gnu++14''
      else if std = ''gnu++17'' then ''gnu++17''
      else if std = ''gnu++20'' then ''gnu++20''
      else ''c++20'')"

definition findStandard :: "pathmod \<Rightarrow> string list \<Rightarrow> error + string" where
  "findStandard path args =
     (case isMSVC path args of
        Inl e \<Rightarrow> Inl e
      | Inr msvc \<Rightarrow>
          let standardPrefix = (if msvc then ''/std:'' else ''-std='') in
          (case find (\<lambda>arg. startsWith arg standardPrefix) args of
             Some stdArg \<Rightarrow> Inr (standardSwitch (substring stdArg 5))
           | None \<Rightarrow> Inr ''c++20''))"

text \<open>The \<^verbatim>\<open>switch\<close> of \<^verbatim>\<open>findIntelliSenseMode\<close>; \<^verbatim>\<open>platform\<close> is accepted and not read.\<close>

definition modeSwitch :: "string \<Rightarrow> string" where
  "modeSwitch comp_arch =
     (if comp_arch = ''msvc-x86'' then ''msvc-x86''
      else if comp_arch = ''msvc-x64'' then ''msvc-x64''
      else if comp_arch = ''msvc-arm'' then ''msvc-arm''
      else if comp_arch = ''msvc-arm64'' then ''msvc-arm64''
      else if comp_arch = ''gcc-x86'' then ''gcc-x86''
      else if comp_arch = ''gcc-x64'' then ''gcc-x64''
      else if comp_arch = ''gcc-arm'' then ''gcc-arm''
      else if comp_arch = ''gcc-arm64'' then ''gcc-arm64''
      else if comp_arch = ''clang-x86'' then ''clang-x86''
      else if comp_arch = ''clang-x64'' then ''clang-x64''
      else if comp_arch = ''clang-arm'' then ''clang-arm''
      else if comp_arch = ''clang-arm64'' then ''clang-arm64''
      else ''msvc-x86'')"

definition findIntelliSenseMode :: "pathmod \<Rightarrow> string list \<Rightarrow> string \<Rightarrow> string \<Rightarrow> error + string" where
  "findIntelliSenseMode path args platform architecture =
     (let intelliArch = (if architecture = ''x86'' then ''x86'' else ''x64'') in
      case findCompiler path args of
        Inl e \<Rightarrow> Inl e
      | Inr compiler \<Rightarrow> Inr (modeSwitch (compiler @ ''-'' @ intelliArch)))"

text \<open>\<^verbatim>\<open>pushIfNotExist(to, from)\<close>: \<^verbatim>\<open>to.indexOf(incoming) === -1\<close> holds when no element of
  \<^verbatim>\<open>to\<close> equals \<^verbatim>\<open>incoming\<close>. The array \<^verbatim>\<open>to\<close> is changed in place; the model returns it.\<close>

fun pushIfNotExist :: "string list \<Rightarrow> string list \<Rightarrow> string list" where
  "pushIfNotExist to [] = to"
| "pushIfNotExist to (incoming # from) =
     pushIfNotExist (if incoming \<notin> set to then to @ [incoming] else to) from"

subsection \<open>The provider class (lines 102 to 134)\<close>

text \<open>The configuration of one source file, as it is handed to the C/C++ tools, and the five
  maps of the class. \<^verbatim>\<open>compilerPath\<close> is whatever \<^verbatim>\<open>args[1]\<close> is, so it is optional; the field
  \<^verbatim>\<open>defines\<close> is written \<open>defines'\<close>.\<close>

record SourceFileConfiguration =
  includePath :: "string list"
  defines' :: "string list"
  compilerPath :: "string option"
  compilerArgs :: "string list"
  standard :: string
  intelliSenseMode :: string

record 'u SourceFileConfigurationItem =
  uri :: 'u
  configuration :: SourceFileConfiguration

record 'u provider =
  sourceFileConfigurations :: "string \<rightharpoonup> 'u SourceFileConfigurationItem"
  workspaceBrowsePaths :: "string \<rightharpoonup> string list"
  workspaceCompilerArgs :: "string \<rightharpoonup> string list"
  workspaceCompiler :: "string \<rightharpoonup> string option"
  workspaceStandard :: "string \<rightharpoonup> string"

text \<open>The constructor gives every workspace folder an empty browse-path array and an empty
  compiler-argument array of its own; \<^verbatim>\<open>workspaceFolders.forEach\<close> throws while no folder is
  open.\<close>

definition constructor :: "'u vscode \<Rightarrow> error + 'u provider" where
  "constructor vs =
     (case workspaceFolders vs of
        None \<Rightarrow> Inl TypeError
      | Some folders \<Rightarrow>
          Inr \<lparr> sourceFileConfigurations = Map.empty,
                workspaceBrowsePaths = foldl (\<lambda>m folder. m(folder \<mapsto> [])) Map.empty folders,
                workspaceCompilerArgs = foldl (\<lambda>m folder. m(folder \<mapsto> [])) Map.empty folders,
                workspaceCompiler = Map.empty,
                workspaceStandard = Map.empty \<rparr>)"

subsection \<open>provideConfigurations (lines 158 to 166)\<close>

text \<open>\<^verbatim>\<open>let items : SourceFileConfigurationItem[];\<close> declares \<^verbatim>\<open>items\<close> and assigns nothing, so
  the loop starts with \<^verbatim>\<open>items\<close> undefined; \<^verbatim>\<open>items.push\<close> then throws. The promise returned is
  modelled by the value it resolves to.\<close>

fun provideLoop ::
  "'u vscode \<Rightarrow> 'u provider \<Rightarrow> 'u list \<Rightarrow> 'u SourceFileConfigurationItem list option
     \<Rightarrow> error + 'u SourceFileConfigurationItem list option" where
  "provideLoop vs this [] items = Inr items"
| "provideLoop vs this (u # uris) items =
     (case sourceFileConfigurations this (fsPath vs u) of
        None \<Rightarrow> provideLoop vs this uris items
      | Some item \<Rightarrow>
          (case items of
             None \<Rightarrow> Inl TypeError
           | Some pushed \<Rightarrow> provideLoop vs this uris (Some (pushed @ [item]))))"

definition provideConfigurations ::
  "'u vscode \<Rightarrow> 'u provider \<Rightarrow> 'u list \<Rightarrow> error + 'u SourceFileConfigurationItem list option" where
  "provideConfigurations vs this uris = provideLoop vs this uris None"

subsection \<open>updateCompileCommands (lines 237 to 288)\<close>

text \<open>\<^verbatim>\<open>xs.forEach(callback)\<close> over a state that the callback changes: the loop ends at the
  first throw, and the state reached by then stays.\<close>

fun forEach :: "('a \<Rightarrow> 's \<Rightarrow> 's \<times> error option) \<Rightarrow> 'a list \<Rightarrow> 's \<Rightarrow> 's \<times> error option" where
  "forEach callback [] s = (s, None)"
| "forEach callback (x # xs) s =
     (case callback x s of
        (s', None) \<Rightarrow> forEach callback xs s'
      | (s', Some e) \<Rightarrow> (s', Some e))"

text \<open>\<^verbatim>\<open>pushIfNotExist(m.get(folder), from)\<close>: the array stored under \<^verbatim>\<open>folder\<close> is changed in
  place. For a folder that is no key, \<^verbatim>\<open>m.get\<close> is undefined and \<^verbatim>\<open>to.indexOf\<close> throws at the
  first incoming element.\<close>

definition pushIfNotExistAt ::
  "(string \<rightharpoonup> string list) \<Rightarrow> string \<Rightarrow> string list \<Rightarrow> error + (string \<rightharpoonup> string list)" where
  "pushIfNotExistAt m folder from =
     (case m folder of
        Some to \<Rightarrow> Inr (m(folder \<mapsto> pushIfNotExist to from))
      | None \<Rightarrow> if from = [] then Inr m else Inl TypeError)"

text \<open>Lines 273 to 282, the callback run for each workspace folder.\<close>

definition populateFolder ::
  "pathmod \<Rightarrow> string \<Rightarrow> string list \<Rightarrow> string list \<Rightarrow> string option \<Rightarrow> string \<Rightarrow> string
     \<Rightarrow> 'u provider \<Rightarrow> 'u provider \<times> error option" where
  "populateFolder path uriFsPath includePaths compilerArgs' compilerPath' standard' folder this =
     (let relativePath = path_relative path uriFsPath folder in
      if startsWith relativePath ''..'' \<or> startsWith relativePath ''.'' then
        (case pushIfNotExistAt (workspaceBrowsePaths this) folder includePaths of
           Inl e \<Rightarrow> (this, Some e)
         | Inr browsePaths \<Rightarrow>
             let this1 = this\<lparr>workspaceBrowsePaths := browsePaths\<rparr> in
             (case pushIfNotExistAt (workspaceCompilerArgs this1) folder compilerArgs' of
                Inl e \<Rightarrow> (this1, Some e)
              | Inr args \<Rightarrow>
                  (this1\<lparr>workspaceCompilerArgs := args,
                         workspaceCompiler := (workspaceCompiler this1)(folder \<mapsto> compilerPath'),
                         workspaceStandard := (workspaceStandard this1)(folder \<mapsto> standard')\<rparr>,
                   None)))
      else (this, None))"

text \<open>Lines 273 to 282: the loop over the workspace folders, which has nothing to iterate
  while no folder is open.\<close>

definition populateWorkspace ::
  "pathmod \<Rightarrow> 'u vscode \<Rightarrow> string \<Rightarrow> string list \<Rightarrow> string list \<Rightarrow> string option \<Rightarrow> string
     \<Rightarrow> 'u provider \<Rightarrow> 'u provider \<times> error option" where
  "populateWorkspace path vs uriFsPath includePaths compilerArgs' compilerPath' standard' this =
     (case workspaceFolders vs of
        None \<Rightarrow> (this, Some TypeError)
      | Some folders \<Rightarrow>
          forEach (populateFolder path uriFsPath includePaths compilerArgs' compilerPath' standard')
            folders this)"

text \<open>Lines 249 to 282, run for a command that passed the validation: the helpers are
  called in the source's order, the configuration is stored under the file's path, and the
  workspace folders are visited.\<close>

definition populate ::
  "pathmod \<Rightarrow> 'u vscode \<Rightarrow> string \<Rightarrow> string \<Rightarrow> string \<Rightarrow> string \<Rightarrow> json
     \<Rightarrow> 'u provider \<Rightarrow> 'u provider \<times> error option" where
  "populate path vs platform architecture directory file arguments this =
     (case (if path_isAbsolute path file then Uri_file vs file
            else Uri_file vs (path_join path directory file)) of
        Inl e \<Rightarrow> (this, Some e)
      | Inr uri' \<Rightarrow>
     (case stringArray arguments of
        Inl e \<Rightarrow> (this, Some e)
      | Inr args \<Rightarrow>
     (case findIncludePaths path directory args of
        Inl e \<Rightarrow> (this, Some e)
      | Inr includePaths \<Rightarrow>
     (case findCompilerArgs path args of
        Inl e \<Rightarrow> (this, Some e)
      | Inr compilerArgs' \<Rightarrow>
     (case findStandard path args of
        Inl e \<Rightarrow> (this, Some e)
      | Inr standard' \<Rightarrow>
     (case findDefines path args of
        Inl e \<Rightarrow> (this, Some e)
      | Inr defines'' \<Rightarrow>
     (case findIntelliSenseMode path args platform architecture of
        Inl e \<Rightarrow> (this, Some e)
      | Inr mode \<Rightarrow>
          let compilerPath' = findCompilerPath args;
              srcConfig = \<lparr> uri = uri',
                            configuration = \<lparr> includePath = includePaths,
                                              defines' = defines'',
                                              compilerPath = compilerPath',
                                              compilerArgs = compilerArgs',
                                              standard = standard',
                                              intelliSenseMode = mode \<rparr> \<rparr>;
              this1 = this\<lparr>sourceFileConfigurations :=
                             (sourceFileConfigurations this)(fsPath vs uri' \<mapsto> srcConfig)\<rparr>
          in populateWorkspace path vs (fsPath vs uri') includePaths compilerArgs'
               compilerPath' standard' this1)))))))"

text \<open>Lines 245 to 287, the callback run for each command: the validation, and the skip of a
  command that fails it (the source logs the command with \<^verbatim>\<open>console.error\<close>).\<close>

fun stringValue :: "json option \<Rightarrow> string" where
  "stringValue (Some (JString s)) = s"
| "stringValue v = []"

fun objectValue :: "json option \<Rightarrow> json" where
  "objectValue (Some v) = v"
| "objectValue None = JNull"

definition processCommand ::
  "pathmod \<Rightarrow> 'u vscode \<Rightarrow> string \<Rightarrow> string \<Rightarrow> json \<Rightarrow> 'u provider \<Rightarrow> 'u provider \<times> error option" where
  "processCommand path vs platform architecture cmd this =
     (case getProperty cmd ''directory'' of
        Inl e \<Rightarrow> (this, Some e)
      | Inr directory \<Rightarrow>
     (case getProperty cmd ''file'' of
        Inl e \<Rightarrow> (this, Some e)
      | Inr file \<Rightarrow>
     (case getProperty cmd ''arguments'' of
        Inl e \<Rightarrow> (this, Some e)
      | Inr arguments \<Rightarrow>
          if typeof directory = ''string'' \<and> typeof file = ''string'' \<and> typeof arguments = ''object''
          then populate path vs platform architecture (stringValue directory) (stringValue file)
                 (objectValue arguments) this
          else (this, None))))"

text \<open>The entry point. Line 239 empties the per-file map. Lines 240 to 243 run
  \<^verbatim>\<open>forEach((paths) => { paths = [] })\<close> and its three siblings over the four other maps: each
  callback assigns to its own parameter, a local variable, and no map is written. Then the
  commands are processed in order; a value that is no array has no \<^verbatim>\<open>forEach\<close> to call.\<close>

definition updateCompileCommands ::
  "pathmod \<Rightarrow> 'u vscode \<Rightarrow> json \<Rightarrow> string \<Rightarrow> string \<Rightarrow> 'u provider \<Rightarrow> 'u provider \<times> error option" where
  "updateCompileCommands path vs compileCommands platform architecture this =
     (let this0 = this\<lparr>sourceFileConfigurations := Map.empty\<rparr> in
      case compileCommands of
        JArray cmds \<Rightarrow> forEach (processCommand path vs platform architecture) cmds this0
      | _ \<Rightarrow> (this0, Some TypeError))"

subsection \<open>A POSIX host\<close>

text \<open>To run the model on concrete commands, the host is instantiated with Node's
  \<^verbatim>\<open>path.posix\<close> and with the editor's \<^verbatim>\<open>Uri\<close> on a system that is not Windows, both after
  their documented behaviour. \<^verbatim>\<open>path.normalize\<close> drops empty and \<^verbatim>\<open>.\<close> segments and lets a
  \<^verbatim>\<open>..\<close> segment cancel the segment before it; \<^verbatim>\<open>path.join\<close> joins its non-empty arguments
  with a slash and normalises the result; \<^verbatim>\<open>path.basename\<close> is what follows the last slash,
  trailing slashes apart; \<^verbatim>\<open>path.relative\<close> resolves both paths against the working directory
  and climbs from the first to their common ancestor.\<close>

fun splitOn :: "char \<Rightarrow> string \<Rightarrow> string list" where
  "splitOn c [] = [[]]"
| "splitOn c (x # xs) =
     (if x = c then [] # splitOn c xs
      else (case splitOn c xs of [] \<Rightarrow> [[x]] | seg # segs \<Rightarrow> (x # seg) # segs))"

fun joinWith :: "string \<Rightarrow> string list \<Rightarrow> string" where
  "joinWith sep [] = []"
| "joinWith sep [x] = x"
| "joinWith sep (x # y # ys) = x @ sep @ joinWith sep (y # ys)"

definition normalizeStep :: "bool \<Rightarrow> string list \<Rightarrow> string \<Rightarrow> string list" where
  "normalizeStep allowAboveRoot res seg =
     (if seg = [] \<or> seg = ''.'' then res
      else if seg = ''..'' then
        (if res \<noteq> [] \<and> last res \<noteq> ''..'' then butlast res
         else if allowAboveRoot then res @ [''..''] else res)
      else res @ [seg])"

definition normalizeSegments :: "string \<Rightarrow> bool \<Rightarrow> string list" where
  "normalizeSegments p allowAboveRoot = foldl (normalizeStep allowAboveRoot) [] (splitOn CHR ''/'' p)"

definition posix_isAbsolute :: "string \<Rightarrow> bool" where
  "posix_isAbsolute p = (p \<noteq> [] \<and> hd p = CHR ''/'')"

definition posix_normalize :: "string \<Rightarrow> string" where
  "posix_normalize p =
     (if p = [] then ''.''
      else
        let isAbs = posix_isAbsolute p;
            trailingSeparator = (last p = CHR ''/'');
            q = joinWith ''/'' (normalizeSegments p (\<not> isAbs))
        in if q = [] then (if isAbs then ''/'' else if trailingSeparator then ''./'' else ''.'')
           else (if isAbs then ''/'' else []) @ q @ (if trailingSeparator then ''/'' else []))"

definition posix_join :: "string \<Rightarrow> string \<Rightarrow> string" where
  "posix_join a b =
     (let joined = (if a = [] then b else if b = [] then a else a @ ''/'' @ b)
      in if joined = [] then ''.'' else posix_normalize joined)"

definition posix_basename :: "string \<Rightarrow> string" where
  "posix_basename p =
     rev (takeWhile (\<lambda>c. c \<noteq> CHR ''/'') (dropWhile (\<lambda>c. c = CHR ''/'') (rev p)))"

definition posix_resolve :: "string \<Rightarrow> string \<Rightarrow> string list" where
  "posix_resolve cwd p =
     normalizeSegments (if posix_isAbsolute p then p else cwd @ ''/'' @ p) False"

fun dropCommon :: "string list \<Rightarrow> string list \<Rightarrow> string list \<times> string list" where
  "dropCommon (x # xs) (y # ys) = (if x = y then dropCommon xs ys else (x # xs, y # ys))"
| "dropCommon xs ys = (xs, ys)"

definition posix_relative :: "string \<Rightarrow> string \<Rightarrow> string \<Rightarrow> string" where
  "posix_relative cwd from to =
     (if from = to then []
      else case dropCommon (posix_resolve cwd from) (posix_resolve cwd to) of
             (up, down) \<Rightarrow> joinWith ''/'' (map (\<lambda>seg. ''..'') up @ down))"

definition posix :: "string \<Rightarrow> pathmod" where
  "posix cwd = \<lparr> path_basename = posix_basename,
                 path_isAbsolute = posix_isAbsolute,
                 path_join = posix_join,
                 path_relative = posix_relative cwd \<rparr>"

text \<open>\<^verbatim>\<open>Uri.file(p)\<close> where backslashes are file-name characters: a path that starts with two
  slashes gives its first segment to the authority; the path of the Uri starts with a slash;
  a Uri with no authority whose path starts with two slashes is rejected. \<^verbatim>\<open>fsPath\<close> puts
  the authority back in front, and writes a drive letter in lower case without the slash
  before it.\<close>

datatype Uri = Uri (authority: string) (uriPath: string)

definition posix_Uri_file :: "string \<Rightarrow> error + Uri" where
  "posix_Uri_file p =
     (let (auth, p1) =
            (if startsWith p ''//''
             then (takeWhile (\<lambda>c. c \<noteq> CHR ''/'') (drop 2 p),
                   (let rest = dropWhile (\<lambda>c. c \<noteq> CHR ''/'') (drop 2 p)
                    in if rest = [] then ''/'' else rest))
             else ([], p));
          p2 = (if p1 = [] then ''/'' else if hd p1 \<noteq> CHR ''/'' then CHR ''/'' # p1 else p1)
      in if auth = [] \<and> startsWith p2 ''//'' then Inl UriError else Inr (Uri auth p2))"

definition isLetter :: "char \<Rightarrow> bool" where
  "isLetter c = (c \<in> set ''ABCDEFGHIJKLMNOPQRSTUVWXYZabcdefghijklmnopqrstuvwxyz'')"

fun posix_fsPath :: "Uri \<Rightarrow> string" where
  "posix_fsPath (Uri auth p) =
     (if auth \<noteq> [] \<and> 1 < length p then ''//'' @ auth @ p
      else (case p of
              s # d # c # rest \<Rightarrow>
                (if s = CHR ''/'' \<and> isLetter d \<and> c = CHR '':'' then lowerChar d # c # rest else p)
            | _ \<Rightarrow> p))"

definition posixEditor :: "string list option \<Rightarrow> Uri vscode" where
  "posixEditor folders = \<lparr> Uri_file = posix_Uri_file, fsPath = posix_fsPath,
                            workspaceFolders = folders \<rparr>"

subsection \<open>The closed sets named by the specification\<close>

text \<open>The specification speaks of a closed set of twenty standard identifiers, of a table
  of twelve IntelliSense modes (three compiler families by four architectures), and of the
  flag prefix of a compiler flavor. These three definitions follow its words; the theorems
  below compare the code with them.\<close>

definition recognizedStandards :: "string list" where
  "recognizedStandards =
     [''c89'', ''c99'', ''c11'', ''c17'', ''gnu89'', ''gnu99'', ''gnu11'', ''gnu17'',
      ''c++98'', ''c++03'', ''c++11'', ''c++14'', ''c++17'', ''c++20'',
      ''gnu++98'', ''gnu++03'', ''gnu++11'', ''gnu++14'', ''gnu++17'', ''gnu++20'']"

definition modeTable :: "(string \<times> string) list" where
  "modeTable = List.product [''msvc'', ''gcc'', ''clang''] [''x86'', ''x64'', ''arm'', ''arm64'']"

definition flavorPrefix :: "pathmod \<Rightarrow> string \<Rightarrow> string" where
  "flavorPrefix path compiler =
     (if toLowerCase (path_basename path compiler) = ''cl'' then ''/'' else ''-'')"

subsection \<open>Sample commands\<close>

text \<open>The entry of the specification's scenario, and the pieces of the databases on which
  the model is run below.\<close>

definition command :: "string \<Rightarrow> string \<Rightarrow> json \<Rightarrow> json" where
  "command directory file arguments =
     JObject [(''directory'', JString directory), (''file'', JString file),
              (''arguments'', arguments)]"

definition scenarioArguments :: "string list" where
  "scenarioArguments = [''sh'', ''/usr/bin/g++'', ''-I../inc'', ''-DFOO'', ''-std=c++17'', ''-Wall'']"

definition scenarioCommand :: json where
  "scenarioCommand = command ''/p'' ''/p/a.cpp'' (JArray (map JString scenarioArguments))"

text \<open>An editor with the one workspace folder \<^verbatim>\<open>/w\<close>, the provider its constructor builds,
  and a second command, for a C file compiled by gcc.\<close>

definition editorW :: "Uri vscode" where
  "editorW = posixEditor (Some [''/w''])"

definition indexW :: "Uri provider" where
  "indexW = \<lparr> sourceFileConfigurations = Map.empty,
              workspaceBrowsePaths = [''/w'' \<mapsto> []],
              workspaceCompilerArgs = [''/w'' \<mapsto> []],
              workspaceCompiler = Map.empty,
              workspaceStandard = Map.empty \<rparr>"

definition otherCommand :: json where
  "otherCommand =
     command ''/w/lib'' ''b.c''
       (JArray (map JString [''sh'', ''/usr/bin/gcc'', ''-I/opt/inc'', ''-I../inc'', ''-Wall'', ''-O2'',
                             ''-std=gnu99'', ''-c'']))"

definition rebuildW :: "json \<Rightarrow> Uri provider \<Rightarrow> Uri provider \<times> error option" where
  "rebuildW compileCommands this =
     updateCompileCommands (posix ''/'') editorW compileCommands ''linux'' ''x86_64'' this"

subsection \<open>Notions used in the proofs\<close>

text \<open>\<open>noDuplicates\<close>: no folder's browse paths and no folder's compiler arguments hold a
  string twice. \<open>grows m m'\<close>: the maps have the same keys and every list of \<open>m'\<close> holds
  the elements of the list of \<open>m\<close>. \<open>extends g\<close>: the step \<open>g\<close> only lets the two aggregate
  maps grow. \<open>replays g\<close>: run from a state whose aggregate lists already hold all that \<open>g\<close>
  pushes, \<open>g\<close> ends as it did before, leaves the lists alone, and writes compiler and standard
  where it wrote them before (\<open>follows\<close>).\<close>

definition noDuplicates :: "'u provider \<Rightarrow> bool" where
  "noDuplicates this =
     ((\<forall>folder paths. workspaceBrowsePaths this folder = Some paths \<longrightarrow> distinct paths) \<and>
      (\<forall>folder args. workspaceCompilerArgs this folder = Some args \<longrightarrow> distinct args))"

definition grows :: "(string \<rightharpoonup> string list) \<Rightarrow> (string \<rightharpoonup> string list) \<Rightarrow> bool" where
  "grows m m' =
     (\<forall>k. case m k of None \<Rightarrow> m' k = None
              | Some xs \<Rightarrow> (\<exists>ys. m' k = Some ys \<and> set xs \<subseteq> set ys))"

definition extends :: "('u provider \<Rightarrow> 'u provider \<times> error option) \<Rightarrow> bool" where
  "extends g =
     (\<forall>s. grows (workspaceBrowsePaths s) (workspaceBrowsePaths (fst (g s))) \<and>
          grows (workspaceCompilerArgs s) (workspaceCompilerArgs (fst (g s))))"

definition follows :: "('k \<Rightarrow> 'v) \<Rightarrow> ('k \<Rightarrow> 'v) \<Rightarrow> ('k \<Rightarrow> 'v) \<Rightarrow> ('k \<Rightarrow> 'v) \<Rightarrow> bool" where
  "follows m m' n n' = (\<forall>k. n' k = m' k \<or> (n' k = n k \<and> m' k = m k))"

definition replays :: "('u provider \<Rightarrow> 'u provider \<times> error option) \<Rightarrow> bool" where
  "replays g =
     (\<forall>s t. sourceFileConfigurations t = sourceFileConfigurations s \<longrightarrow>
            grows (workspaceBrowsePaths (fst (g s))) (workspaceBrowsePaths t) \<longrightarrow>
            grows (workspaceCompilerArgs (fst (g s))) (workspaceCompilerArgs t) \<longrightarrow>
            snd (g t) = snd (g s) \<and>
            sourceFileConfigurations (fst (g t)) = sourceFileConfigurations (fst (g s)) \<and>
            workspaceBrowsePaths (fst (g t)) = workspaceBrowsePaths t \<and>
            workspaceCompilerArgs (fst (g t)) = workspaceCompilerArgs t \<and>
            follows (workspaceCompiler s) (workspaceCompiler (fst (g s)))
                    (workspaceCompiler t) (workspaceCompiler (fst (g t))) \<and>
            follows (workspaceStandard s) (workspaceStandard (fst (g s)))
                    (workspaceStandard t) (workspaceStandard (fst (g t))))"

section \<open>The argument helpers\<close>

lemma startsWith_prefix: "startsWith s p = prefix p s"
  by (auto simp: startsWith_def prefix_def take_is_prefix dest: sym) (metis append_eq_conv_conj)

lemma standardSwitch_spec:
  "standardSwitch std = (if std \<in> set recognizedStandards then std else ''c++20'')"
  by (simp add: standardSwitch_def recognizedStandards_def)

lemma isMSVC_index1:
  "index1 args = Some compiler \<Longrightarrow>
   isMSVC path args = Inr (toLowerCase (path_basename path compiler) = ''cl'')"
  by (simp add: isMSVC_def)

lemma isMSVC_throws: "index1 args = None \<Longrightarrow> isMSVC path args = Inl TypeError"
  by (simp add: isMSVC_def)

lemma append_literal: "(c @ s = r) = (rev s @ rev c = rev r)"
  by (metis rev_append rev_rev_ident)

lemma modeSwitch_x64:
  "modeSwitch (c @ ''-x64'') =
     (if c \<in> {''msvc'', ''gcc'', ''clang''} then c @ ''-x64'' else ''msvc-x86'')"
  by (simp add: modeSwitch_def append_literal rev_swap)

lemma modeSwitch_x86:
  "modeSwitch (c @ ''-x86'') =
     (if c \<in> {''msvc'', ''gcc'', ''clang''} then c @ ''-x86'' else ''msvc-x86'')"
  by (simp add: modeSwitch_def append_literal rev_swap)

lemma findIntelliSenseMode_index1:
  "index1 args = Some compiler \<Longrightarrow>
   findIntelliSenseMode path args platform architecture =
     Inr (let c = toLowerCase (path_basename path compiler);
              a = (if architecture = ''x86'' then ''x86'' else ''x64'')
          in if c \<in> {''msvc'', ''gcc'', ''clang''} then c @ ''-'' @ a else ''msvc-x86'')"
  by (cases "architecture = ''x86''")
     (simp_all add: findIntelliSenseMode_def findCompiler_def modeSwitch_x64 modeSwitch_x86)

lemma findIntelliSenseMode_throws:
  "index1 args = None \<Longrightarrow> findIntelliSenseMode path args platform architecture = Inl TypeError"
  by (simp add: findIntelliSenseMode_def findCompiler_def Let_def)

lemmas posix_simps =
  posix_def posix_basename_def posix_isAbsolute_def posix_join_def posix_normalize_def
  normalizeSegments_def normalizeStep_def toLowerCase_def lowerChar_def index1_def

text \<open>
  \<^bold>\<open>C5.\<close> The \<^verbatim>\<open>switch\<close> of \<^verbatim>\<open>findStandard\<close> returns each of the twenty recognized
  identifiers unchanged and \<^verbatim>\<open>c++20\<close> for every other token. The flavor of an argument vector
  is read from the compiler path at index 1; for every argument vector that has one,
  \<^verbatim>\<open>findStandard\<close> looks for the first argument that starts with the flavor's standard prefix
  (\<^verbatim>\<open>/std:\<close> for \<^verbatim>\<open>cl\<close>, \<^verbatim>\<open>-std=\<close> otherwise), takes what follows the five characters of the
  prefix as the token, and returns what the switch returns for it; when no argument starts
  with the prefix, it returns \<^verbatim>\<open>c++20\<close>.
\<close>

theorem findStandard_recognized:
  "standardSwitch std = (if std \<in> set recognizedStandards then std else ''c++20'') \<and>
   (index1 args = Some compiler \<longrightarrow>
      findStandard path args =
        Inr (case find (prefix (if toLowerCase (path_basename path compiler) = ''cl''
                                then ''/std:'' else ''-std='')) args of
               None \<Rightarrow> ''c++20''
             | Some stdArg \<Rightarrow>
                 if drop 5 stdArg \<in> set recognizedStandards then drop 5 stdArg else ''c++20''))"
  by (simp add: findStandard_def isMSVC_index1 startsWith_prefix[abs_def] substring_def
        standardSwitch_spec split: option.splits)

theorem findStandard_recognized_witness:
  "standardSwitch ''gnu++14'' = ''gnu++14'' \<and> standardSwitch ''c++23'' = ''c++20'' \<and>
   index1 [''sh'', ''/usr/bin/g++'', ''-Wall'', ''-std=gnu++14'', ''-std=c99''] = Some ''/usr/bin/g++'' \<and>
   findStandard (posix ''/'') [''sh'', ''/usr/bin/g++'', ''-Wall'', ''-std=gnu++14'', ''-std=c99'']
     = Inr ''gnu++14'' \<and>
   index1 [''sh'', ''/opt/bin/CL'', ''-std=c99'', ''/std:c++23''] = Some ''/opt/bin/CL'' \<and>
   findStandard (posix ''/'') [''sh'', ''/opt/bin/CL'', ''-std=c99'', ''/std:c++23''] = Inr ''c++20'' \<and>
   index1 [''sh'', ''/usr/bin/gcc'', ''-O2''] = Some ''/usr/bin/gcc'' \<and>
   findStandard (posix ''/'') [''sh'', ''/usr/bin/gcc'', ''-O2''] = Inr ''c++20''"
proof -
  have g: "index1 [''sh'', ''/usr/bin/g++'', ''-Wall'', ''-std=gnu++14'', ''-std=c99''] = Some ''/usr/bin/g++''"
    by (simp add: index1_def)
  have c: "index1 [''sh'', ''/opt/bin/CL'', ''-std=c99'', ''/std:c++23''] = Some ''/opt/bin/CL''"
    by (simp add: index1_def)
  have n: "index1 [''sh'', ''/usr/bin/gcc'', ''-O2''] = Some ''/usr/bin/gcc''"
    by (simp add: index1_def)
  have "standardSwitch ''gnu++14'' = ''gnu++14''" "standardSwitch ''c++23'' = ''c++20''"
    using findStandard_recognized [of "''gnu++14''"] findStandard_recognized [of "''c++23''"]
    by (simp_all add: recognizedStandards_def)
  moreover have "findStandard (posix ''/'') [''sh'', ''/usr/bin/g++'', ''-Wall'', ''-std=gnu++14'', ''-std=c99'']
     = Inr ''gnu++14''"
    using findStandard_recognized [THEN conjunct2, rule_format, OF g, of "posix ''/''"]
    by (simp add: posix_simps recognizedStandards_def)
  moreover have "findStandard (posix ''/'') [''sh'', ''/opt/bin/CL'', ''-std=c99'', ''/std:c++23''] = Inr ''c++20''"
    using findStandard_recognized [THEN conjunct2, rule_format, OF c, of "posix ''/''"]
    by (simp add: posix_simps recognizedStandards_def)
  moreover have "findStandard (posix ''/'') [''sh'', ''/usr/bin/gcc'', ''-O2''] = Inr ''c++20''"
    using findStandard_recognized [THEN conjunct2, rule_format, OF n, of "posix ''/''"]
    by (simp add: posix_simps)
  ultimately show ?thesis
    using g c n by simp
qed

text \<open>
  \<^bold>\<open>C7.\<close> For every argument vector with a compiler path at index 1, the pass-through
  compiler arguments are exactly the arguments that start with the flavor prefix (\<^verbatim>\<open>/\<close> when
  the lower-cased base name of \<^verbatim>\<open>arguments[1]\<close> is \<^verbatim>\<open>cl\<close>, \<^verbatim>\<open>-\<close> otherwise) and start with none
  of prefix+I, prefix+D, prefix+o, prefix+std, the last one a plain prefix test whatever
  follows \<^verbatim>\<open>std\<close>; the arguments kept stay in their order, each as often as it occurs.
\<close>

theorem findCompilerArgs_passthrough:
  assumes "index1 args = Some compiler"
  shows "findCompilerArgs path args =
     Inr (filter (\<lambda>arg. prefix (flavorPrefix path compiler) arg \<and>
                        \<not> prefix (flavorPrefix path compiler @ ''I'') arg \<and>
                        \<not> prefix (flavorPrefix path compiler @ ''D'') arg \<and>
                        \<not> prefix (flavorPrefix path compiler @ ''o'') arg \<and>
                        \<not> prefix (flavorPrefix path compiler @ ''std'') arg) args)"
  using assms
  by (simp add: findCompilerArgs_def isMSVC_index1 startsWith_prefix flavorPrefix_def)

theorem findCompilerArgs_passthrough_witness:
  "index1 [''sh'', ''/usr/bin/clang'', ''-Wall'', ''-Iinc'', ''-DX'', ''-o'', ''a.o'', ''-std=c++11'',
           ''-stdlib=libc++'', ''-std'', ''-c'', ''a.c'', ''/W4'', ''-Wall'']
     = Some ''/usr/bin/clang'' \<and>
   findCompilerArgs (posix ''/'')
          [''sh'', ''/usr/bin/clang'', ''-Wall'', ''-Iinc'', ''-DX'', ''-o'', ''a.o'', ''-std=c++11'',
           ''-stdlib=libc++'', ''-std'', ''-c'', ''a.c'', ''/W4'', ''-Wall'']
     = Inr [''-Wall'', ''-c'', ''-Wall'']"
proof -
  have h: "index1 [''sh'', ''/usr/bin/clang'', ''-Wall'', ''-Iinc'', ''-DX'', ''-o'', ''a.o'', ''-std=c++11'',
           ''-stdlib=libc++'', ''-std'', ''-c'', ''a.c'', ''/W4'', ''-Wall''] = Some ''/usr/bin/clang''"
    by (simp add: index1_def)
  show ?thesis
    using h findCompilerArgs_passthrough [OF h, of "posix ''/''"]
    by (simp add: posix_simps flavorPrefix_def)
qed

text \<open>
  \<^bold>\<open>C8.\<close> For every architecture string other than exactly \<^verbatim>\<open>x86\<close>,
  \<^verbatim>\<open>findIntelliSenseMode\<close> does what it does for \<^verbatim>\<open>x64\<close>: the architecture is made \<^verbatim>\<open>x64\<close> before
  the table is consulted. And every pair of the lower-cased compiler base name and the
  canonical architecture that is not in the table of twelve yields \<^verbatim>\<open>msvc-x86\<close>.
\<close>

theorem findIntelliSenseMode_canonical:
  "(architecture \<noteq> ''x86'' \<longrightarrow>
      findIntelliSenseMode path args platform architecture =
      findIntelliSenseMode path args platform ''x64'') \<and>
   (index1 args = Some compiler \<longrightarrow>
      (toLowerCase (path_basename path compiler),
       if architecture = ''x86'' then ''x86'' else ''x64'') \<notin> set modeTable \<longrightarrow>
      findIntelliSenseMode path args platform architecture = Inr ''msvc-x86'')"
proof (intro conjI impI)
  assume "architecture \<noteq> ''x86''"
  then show "findIntelliSenseMode path args platform architecture =
             findIntelliSenseMode path args platform ''x64''"
    by (simp add: findIntelliSenseMode_def)
next
  assume "index1 args = Some compiler"
    and "(toLowerCase (path_basename path compiler),
          if architecture = ''x86'' then ''x86'' else ''x64'') \<notin> set modeTable"
  then show "findIntelliSenseMode path args platform architecture = Inr ''msvc-x86''"
    by (simp add: findIntelliSenseMode_index1 modeTable_def Let_def split: if_splits)
qed

theorem findIntelliSenseMode_canonical_witness:
  "''arm64'' \<noteq> ''x86'' \<and>
   findIntelliSenseMode (posix ''/'') [''sh'', ''/usr/bin/GCC''] ''linux'' ''arm64'' = Inr ''gcc-x64'' \<and>
   findIntelliSenseMode (posix ''/'') [''sh'', ''/usr/bin/GCC''] ''linux'' ''x64'' = Inr ''gcc-x64'' \<and>
   index1 [''sh'', ''/usr/bin/g++''] = Some ''/usr/bin/g++'' \<and>
   (toLowerCase (path_basename (posix ''/'') ''/usr/bin/g++''), ''x64'') \<notin> set modeTable \<and>
   findIntelliSenseMode (posix ''/'') [''sh'', ''/usr/bin/g++''] ''linux'' ''x86_64'' = Inr ''msvc-x86''"
proof -
  have a: "findIntelliSenseMode (posix ''/'') [''sh'', ''/usr/bin/GCC''] ''linux'' ''x64'' = Inr ''gcc-x64''"
    by (simp add: findIntelliSenseMode_def findCompiler_def modeSwitch_def posix_simps)
  have h: "index1 [''sh'', ''/usr/bin/g++''] = Some ''/usr/bin/g++''"
    by (simp add: index1_def)
  have t: "(toLowerCase (path_basename (posix ''/'') ''/usr/bin/g++''), ''x64'') \<notin> set modeTable"
    by (simp add: modeTable_def posix_simps)
  have n: "''arm64'' \<noteq> ''x86''" by simp
  have "findIntelliSenseMode (posix ''/'') [''sh'', ''/usr/bin/GCC''] ''linux'' ''arm64'' =
        findIntelliSenseMode (posix ''/'') [''sh'', ''/usr/bin/GCC''] ''linux'' ''x64''"
    using n findIntelliSenseMode_canonical
        [of "''arm64''" "posix ''/''" "[''sh'', ''/usr/bin/GCC'']" "''linux''"]
    by blast
  moreover have "findIntelliSenseMode (posix ''/'') [''sh'', ''/usr/bin/g++''] ''linux'' ''x86_64'' =
                 Inr ''msvc-x86''"
    using t findIntelliSenseMode_canonical
        [of "''x86_64''" "posix ''/''" "[''sh'', ''/usr/bin/g++'']" "''linux''" "''/usr/bin/g++''",
         THEN conjunct2, rule_format, OF h]
    by simp
  ultimately show ?thesis
    using a h t n by simp
qed

text \<open>
  \<^bold>\<open>C10.\<close> For every argument vector of the MSVC flavor (the compiler base name lower-cases to
  \<^verbatim>\<open>cl\<close>), \<^verbatim>\<open>findIntelliSenseMode\<close> returns \<^verbatim>\<open>msvc-x86\<close> whatever the architecture and the
  platform are: the key is built from the lower-cased base name itself, and \<^verbatim>\<open>cl\<close> is in no
  row of the table. A mode other than \<^verbatim>\<open>msvc-x86\<close> is only ever returned for a base name that
  lower-cases to \<^verbatim>\<open>msvc\<close>, \<^verbatim>\<open>gcc\<close> or \<^verbatim>\<open>clang\<close>.
\<close>

theorem cl_mode_is_default:
  "(isMSVC path args = Inr True \<longrightarrow>
      findIntelliSenseMode path args platform architecture = Inr ''msvc-x86'') \<and>
   (findIntelliSenseMode path args platform architecture = Inr mode \<longrightarrow> mode \<noteq> ''msvc-x86'' \<longrightarrow>
      (\<exists>compiler. index1 args = Some compiler \<and>
         toLowerCase (path_basename path compiler) \<in> {''msvc'', ''gcc'', ''clang''}))"
proof (intro conjI impI)
  assume "isMSVC path args = Inr True"
  then obtain compiler where
    "index1 args = Some compiler" "toLowerCase (path_basename path compiler) = ''cl''"
    by (auto simp: isMSVC_def split: option.splits)
  then show "findIntelliSenseMode path args platform architecture = Inr ''msvc-x86''"
    by (simp add: findIntelliSenseMode_index1)
next
  assume m: "findIntelliSenseMode path args platform architecture = Inr mode"
    and d: "mode \<noteq> ''msvc-x86''"
  show "\<exists>compiler. index1 args = Some compiler \<and>
         toLowerCase (path_basename path compiler) \<in> {''msvc'', ''gcc'', ''clang''}"
  proof (cases "index1 args")
    case None
    with m show ?thesis by (simp add: findIntelliSenseMode_throws)
  next
    case (Some compiler)
    with m d show ?thesis
      by (auto simp: findIntelliSenseMode_index1 Let_def split: if_splits)
  qed
qed

theorem cl_mode_is_default_witness:
  "isMSVC (posix ''/'') [''sh'', ''/VC/bin/CL'', ''/W4''] = Inr True \<and>
   findIntelliSenseMode (posix ''/'') [''sh'', ''/VC/bin/CL'', ''/W4''] ''windows'' ''x64'' = Inr ''msvc-x86'' \<and>
   findIntelliSenseMode (posix ''/'') [''sh'', ''/usr/bin/clang''] ''linux'' ''x86_64'' = Inr ''clang-x64'' \<and>
   ''clang-x64'' \<noteq> ''msvc-x86'' \<and>
   (\<exists>compiler. index1 [''sh'', ''/usr/bin/clang''] = Some compiler \<and>
      toLowerCase (path_basename (posix ''/'') compiler) \<in> {''msvc'', ''gcc'', ''clang''})"
proof -
  have c: "isMSVC (posix ''/'') [''sh'', ''/VC/bin/CL'', ''/W4''] = Inr True"
    by (simp add: isMSVC_def posix_simps)
  have m: "findIntelliSenseMode (posix ''/'') [''sh'', ''/usr/bin/clang''] ''linux'' ''x86_64'' = Inr ''clang-x64''"
    by (simp add: findIntelliSenseMode_def findCompiler_def modeSwitch_def posix_simps)
  have d: "''clang-x64'' \<noteq> ''msvc-x86''" by simp
  show ?thesis
    using c m d
      cl_mode_is_default [of "posix ''/''" "[''sh'', ''/VC/bin/CL'', ''/W4'']" "''windows''" "''x64''"]
      cl_mode_is_default [of "posix ''/''" "[''sh'', ''/usr/bin/clang'']" "''linux''" "''x86_64''" "''clang-x64''"]
    by simp
qed

section \<open>The rebuild step by step\<close>

lemma set_pushIfNotExist: "set (pushIfNotExist to from) = set to \<union> set from"
  by (induction "from" arbitrary: to) auto

lemma pushIfNotExist_absorbs: "set from \<subseteq> set to \<Longrightarrow> pushIfNotExist to from = to"
  by (induction "from" arbitrary: to) auto

lemma pushIfNotExist_appends:
  "\<exists>added. pushIfNotExist to from = to @ added \<and> distinct added \<and> set added = set from - set to"
proof (induction "from" arbitrary: to)
  case Nil
  then show ?case by simp
next
  case (Cons incoming "from")
  show ?case
  proof (cases "incoming \<in> set to")
    case True
    with Cons[of to] show ?thesis by auto
  next
    case False
    from Cons[of "to @ [incoming]"] obtain added where
      a: "pushIfNotExist (to @ [incoming]) from = (to @ [incoming]) @ added"
         "distinct added" "set added = set from - set (to @ [incoming])" by blast
    with False show ?thesis
      by (intro exI[of _ "incoming # added"]) auto
  qed
qed

lemma distinct_pushIfNotExist: "distinct to \<Longrightarrow> distinct (pushIfNotExist to from)"
  using pushIfNotExist_appends[of to "from"] by auto

lemma grows_None: "grows m n \<Longrightarrow> m k = None \<Longrightarrow> n k = None"
  unfolding grows_def by (drule spec[of _ k]) simp

lemma grows_Some: "grows m n \<Longrightarrow> m k = Some xs \<Longrightarrow> \<exists>ys. n k = Some ys \<and> set xs \<subseteq> set ys"
  unfolding grows_def by (drule spec[of _ k]) simp

lemma grows_refl: "grows m m"
  by (simp add: grows_def split: option.splits)

lemma grows_trans: "grows a b \<Longrightarrow> grows b c \<Longrightarrow> grows a c"
  unfolding grows_def
proof
  fix k
  assume ab: "\<forall>k. case a k of None \<Rightarrow> b k = None
                 | Some xs \<Rightarrow> \<exists>ys. b k = Some ys \<and> set xs \<subseteq> set ys"
    and bc: "\<forall>k. case b k of None \<Rightarrow> c k = None
                 | Some xs \<Rightarrow> \<exists>ys. c k = Some ys \<and> set xs \<subseteq> set ys"
  show "case a k of None \<Rightarrow> c k = None
          | Some xs \<Rightarrow> \<exists>ys. c k = Some ys \<and> set xs \<subseteq> set ys"
    using spec[OF ab, of k] spec[OF bc, of k]
    by (cases "a k") (auto split: option.splits)
qed

lemma forEach_invariant:
  assumes "\<And>x s. I s \<Longrightarrow> I (fst (f x s))" and "I s"
  shows "I (fst (forEach f xs s))"
  using assms(2)
proof (induction xs arbitrary: s)
  case Nil
  then show ?case by simp
next
  case (Cons x xs)
  from Cons.prems have i: "I (fst (f x s))" by (rule assms(1))
  show ?case
  proof (cases "f x s")
    case (Pair s' e)
    with i Cons.IH[of s'] show ?thesis by (cases e) auto
  qed
qed


lemma follows_refl: "follows m m n n"
  by (simp add: follows_def)

lemma follows_upd: "follows m (m(k := v)) n (n(k := v))"
  by (simp add: follows_def)

lemma follows_trans: "follows m m1 n n1 \<Longrightarrow> follows m1 m2 n1 n2 \<Longrightarrow> follows m m2 n n2"
  unfolding follows_def by metis

lemma extends_forEach:
  fixes f :: "'a \<Rightarrow> 'u provider \<Rightarrow> 'u provider \<times> error option"
  assumes "\<And>x. extends (f x)"
  shows "extends (forEach f xs)"
  unfolding extends_def
proof
  fix s
  have "grows (workspaceBrowsePaths s) (workspaceBrowsePaths (fst (forEach f xs s))) \<and>
        grows (workspaceCompilerArgs s) (workspaceCompilerArgs (fst (forEach f xs s)))"
  proof (rule forEach_invariant
      [where I = "\<lambda>s'. grows (workspaceBrowsePaths s) (workspaceBrowsePaths s') \<and>
                        grows (workspaceCompilerArgs s) (workspaceCompilerArgs s')"])
    fix x and s' :: "'u provider"
    assume "grows (workspaceBrowsePaths s) (workspaceBrowsePaths s') \<and>
            grows (workspaceCompilerArgs s) (workspaceCompilerArgs s')"
    moreover from assms[of x]
    have "grows (workspaceBrowsePaths s') (workspaceBrowsePaths (fst (f x s'))) \<and>
          grows (workspaceCompilerArgs s') (workspaceCompilerArgs (fst (f x s')))"
      by (simp add: extends_def)
    ultimately show "grows (workspaceBrowsePaths s) (workspaceBrowsePaths (fst (f x s'))) \<and>
          grows (workspaceCompilerArgs s) (workspaceCompilerArgs (fst (f x s')))"
      by (blast intro: grows_trans)
  next
    show "grows (workspaceBrowsePaths s) (workspaceBrowsePaths s) \<and>
          grows (workspaceCompilerArgs s) (workspaceCompilerArgs s)"
      by (simp add: grows_refl)
  qed
  then show "grows (workspaceBrowsePaths s) (workspaceBrowsePaths (fst (forEach f xs s))) \<and>
        grows (workspaceCompilerArgs s) (workspaceCompilerArgs (fst (forEach f xs s)))" .
qed

lemma replays_forEach:
  fixes f :: "'a \<Rightarrow> 'u provider \<Rightarrow> 'u provider \<times> error option"
  assumes r: "\<And>x. replays (f x)" and e: "\<And>x. extends (f x)"
  shows "replays (forEach f xs)"
proof (induction xs)
  case Nil
  show ?case by (simp add: replays_def follows_refl)
next
  case (Cons x xs)
  show ?case
    unfolding replays_def
  proof (intro allI impI)
    fix s t :: "'u provider"
    assume sfc: "sourceFileConfigurations t = sourceFileConfigurations s"
      and gb: "grows (workspaceBrowsePaths (fst (forEach f (x # xs) s))) (workspaceBrowsePaths t)"
      and gc: "grows (workspaceCompilerArgs (fst (forEach f (x # xs) s))) (workspaceCompilerArgs t)"
    obtain s1 e1 where fs: "f x s = (s1, e1)" by (cases "f x s")
    obtain t1 d1 where ft: "f x t = (t1, d1)" by (cases "f x t")
    have ext: "grows (workspaceBrowsePaths s1) (workspaceBrowsePaths (fst (forEach f xs s1)))"
              "grows (workspaceCompilerArgs s1) (workspaceCompilerArgs (fst (forEach f xs s1)))"
      using extends_forEach[of f xs, OF e] by (simp_all add: extends_def)
    have g1: "grows (workspaceBrowsePaths s1) (workspaceBrowsePaths t) \<and>
              grows (workspaceCompilerArgs s1) (workspaceCompilerArgs t)"
      using gb gc fs ext by (cases e1) (auto intro: grows_trans)
    from r[of x] sfc g1 fs ft
    have step: "d1 = e1" "sourceFileConfigurations t1 = sourceFileConfigurations s1"
      "workspaceBrowsePaths t1 = workspaceBrowsePaths t"
      "workspaceCompilerArgs t1 = workspaceCompilerArgs t"
      "follows (workspaceCompiler s) (workspaceCompiler s1) (workspaceCompiler t) (workspaceCompiler t1)"
      "follows (workspaceStandard s) (workspaceStandard s1) (workspaceStandard t) (workspaceStandard t1)"
      unfolding replays_def by (metis fst_conv snd_conv)+
    show "snd (forEach f (x # xs) t) = snd (forEach f (x # xs) s) \<and>
       sourceFileConfigurations (fst (forEach f (x # xs) t)) =
       sourceFileConfigurations (fst (forEach f (x # xs) s)) \<and>
       workspaceBrowsePaths (fst (forEach f (x # xs) t)) = workspaceBrowsePaths t \<and>
       workspaceCompilerArgs (fst (forEach f (x # xs) t)) = workspaceCompilerArgs t \<and>
       follows (workspaceCompiler s) (workspaceCompiler (fst (forEach f (x # xs) s)))
        (workspaceCompiler t) (workspaceCompiler (fst (forEach f (x # xs) t))) \<and>
       follows (workspaceStandard s) (workspaceStandard (fst (forEach f (x # xs) s)))
        (workspaceStandard t) (workspaceStandard (fst (forEach f (x # xs) t)))"
    proof (cases e1)
      case (Some err)
      with fs ft step show ?thesis by simp
    next
      case None
      with fs ft step have unf: "forEach f (x # xs) s = forEach f xs s1"
        "forEach f (x # xs) t = forEach f xs t1" by simp_all
      from gb gc unf step
      have "grows (workspaceBrowsePaths (fst (forEach f xs s1))) (workspaceBrowsePaths t1)"
        "grows (workspaceCompilerArgs (fst (forEach f xs s1))) (workspaceCompilerArgs t1)"
        by simp_all
      with Cons.IH step(2)
      have ih: "snd (forEach f xs t1) = snd (forEach f xs s1)"
        "sourceFileConfigurations (fst (forEach f xs t1)) = sourceFileConfigurations (fst (forEach f xs s1))"
        "workspaceBrowsePaths (fst (forEach f xs t1)) = workspaceBrowsePaths t1"
        "workspaceCompilerArgs (fst (forEach f xs t1)) = workspaceCompilerArgs t1"
        "follows (workspaceCompiler s1) (workspaceCompiler (fst (forEach f xs s1)))
                 (workspaceCompiler t1) (workspaceCompiler (fst (forEach f xs t1)))"
        "follows (workspaceStandard s1) (workspaceStandard (fst (forEach f xs s1)))
                 (workspaceStandard t1) (workspaceStandard (fst (forEach f xs t1)))"
        unfolding replays_def by blast+
      with step unf show ?thesis
        by (auto intro: follows_trans)
    qed
  qed
qed


lemma pushIfNotExistAt_grows: "pushIfNotExistAt m k from = Inr m' \<Longrightarrow> grows m m'"
  by (auto simp: pushIfNotExistAt_def grows_def set_pushIfNotExist split: option.splits if_splits)

lemma pushIfNotExistAt_replay_throw:
  "pushIfNotExistAt m k from = Inl e \<Longrightarrow> grows m n \<Longrightarrow> pushIfNotExistAt n k from = Inl e"
  by (cases "m k") (auto simp: pushIfNotExistAt_def split: if_splits dest: grows_None)

lemma pushIfNotExistAt_replay:
  assumes "pushIfNotExistAt m k from = Inr m'" and "grows m' n"
  shows "pushIfNotExistAt n k from = Inr n"
proof (cases "m k")
  case None
  with assms(1) have "from = []" "m' = m"
    by (auto simp: pushIfNotExistAt_def split: if_splits)
  with None assms(2) have "n k = None"
    by (auto dest: grows_None)
  with \<open>from = []\<close> show ?thesis by (simp add: pushIfNotExistAt_def)
next
  case (Some to)
  with assms(1) have "m' k = Some (pushIfNotExist to from)"
    by (auto simp: pushIfNotExistAt_def)
  with assms(2) obtain ys where ys: "n k = Some ys" "set (pushIfNotExist to from) \<subseteq> set ys"
    by (blast dest: grows_Some)
  then have "pushIfNotExist ys from = ys"
    by (simp add: pushIfNotExist_absorbs set_pushIfNotExist)
  with ys show ?thesis
    by (simp add: pushIfNotExistAt_def map_upd_triv)
qed

lemma extends_populateFolder:
  "extends (populateFolder path u includePaths cargs cpath std folder)"
  unfolding extends_def populateFolder_def
  by (auto simp: Let_def grows_refl split: sum.splits dest: pushIfNotExistAt_grows)

lemma sfc_populateFolder:
  "sourceFileConfigurations (fst (populateFolder path u includePaths cargs cpath std folder this))
     = sourceFileConfigurations this"
  by (auto simp: populateFolder_def Let_def split: sum.splits)

lemma replays_populateFolder:
  "replays (populateFolder path u includePaths cargs cpath std folder)"
  unfolding replays_def
proof (intro allI impI)
  fix s t :: "'a provider"
  let ?g = "populateFolder path u includePaths cargs cpath std folder"
  assume sfc: "sourceFileConfigurations t = sourceFileConfigurations s"
    and gb: "grows (workspaceBrowsePaths (fst (?g s))) (workspaceBrowsePaths t)"
    and gc: "grows (workspaceCompilerArgs (fst (?g s))) (workspaceCompilerArgs t)"
  let ?goal = "snd (?g t) = snd (?g s) \<and>
       sourceFileConfigurations (fst (?g t)) = sourceFileConfigurations (fst (?g s)) \<and>
       workspaceBrowsePaths (fst (?g t)) = workspaceBrowsePaths t \<and>
       workspaceCompilerArgs (fst (?g t)) = workspaceCompilerArgs t \<and>
       follows (workspaceCompiler s) (workspaceCompiler (fst (?g s)))
        (workspaceCompiler t) (workspaceCompiler (fst (?g t))) \<and>
       follows (workspaceStandard s) (workspaceStandard (fst (?g s)))
        (workspaceStandard t) (workspaceStandard (fst (?g t)))"
  show ?goal
  proof (cases "startsWith (path_relative path u folder) ''..'' \<or>
                startsWith (path_relative path u folder) ''.''")
    case False
    with sfc show ?thesis by (simp add: populateFolder_def follows_refl)
  next
    case attributed: True
    show ?thesis
    proof (cases "pushIfNotExistAt (workspaceBrowsePaths s) folder includePaths")
      case (Inl e)
      with attributed have "?g s = (s, Some e)" by (simp add: populateFolder_def)
      moreover from this gb Inl
      have "pushIfNotExistAt (workspaceBrowsePaths t) folder includePaths = Inl e"
        by (auto intro: pushIfNotExistAt_replay_throw)
      with attributed have "?g t = (t, Some e)" by (simp add: populateFolder_def)
      ultimately show ?thesis using sfc by (simp add: follows_refl)
    next
      case (Inr bp)
      show ?thesis
      proof (cases "pushIfNotExistAt (workspaceCompilerArgs s) folder cargs")
        case (Inl e)
        with attributed Inr have gs: "?g s = (s\<lparr>workspaceBrowsePaths := bp\<rparr>, Some e)"
          by (simp add: populateFolder_def)
        with gb Inr have "pushIfNotExistAt (workspaceBrowsePaths t) folder includePaths
            = Inr (workspaceBrowsePaths t)"
          by (auto intro: pushIfNotExistAt_replay)
        moreover from gs gc Inl
        have "pushIfNotExistAt (workspaceCompilerArgs t) folder cargs = Inl e"
          by (auto intro: pushIfNotExistAt_replay_throw)
        ultimately have "?g t = (t, Some e)"
          using attributed by (simp add: populateFolder_def)
        with gs sfc show ?thesis by (simp add: follows_refl)
      next
        case ca: (Inr ca)
        with attributed Inr have gs: "?g s =
            (s\<lparr>workspaceBrowsePaths := bp, workspaceCompilerArgs := ca,
               workspaceCompiler := (workspaceCompiler s)(folder \<mapsto> cpath),
               workspaceStandard := (workspaceStandard s)(folder \<mapsto> std)\<rparr>, None)"
          by (simp add: populateFolder_def)
        with gb Inr have "pushIfNotExistAt (workspaceBrowsePaths t) folder includePaths
            = Inr (workspaceBrowsePaths t)"
          by (auto intro: pushIfNotExistAt_replay)
        moreover from gs gc ca
        have "pushIfNotExistAt (workspaceCompilerArgs t) folder cargs = Inr (workspaceCompilerArgs t)"
          by (auto intro: pushIfNotExistAt_replay)
        ultimately have "?g t =
            (t\<lparr>workspaceCompiler := (workspaceCompiler t)(folder \<mapsto> cpath),
               workspaceStandard := (workspaceStandard t)(folder \<mapsto> std)\<rparr>, None)"
          using attributed by (simp add: populateFolder_def)
        with gs sfc show ?thesis by (simp add: follows_upd)
      qed
    qed
  qed
qed


lemma replays_throw: "replays (\<lambda>s. (s, e))"
  by (simp add: replays_def follows_refl)

lemma extends_throw: "extends (\<lambda>s. (s, e))"
  by (simp add: extends_def grows_refl)

lemma replays_store:
  assumes "replays h"
  shows "replays (\<lambda>s. h (s\<lparr>sourceFileConfigurations := (sourceFileConfigurations s)(k \<mapsto> item)\<rparr>))"
  unfolding replays_def
proof (intro allI impI)
  fix s t :: "'a provider"
  let ?st = "\<lambda>s::'a provider. s\<lparr>sourceFileConfigurations := (sourceFileConfigurations s)(k \<mapsto> item)\<rparr>"
  assume "sourceFileConfigurations t = sourceFileConfigurations s"
    and "grows (workspaceBrowsePaths (fst (h (?st s)))) (workspaceBrowsePaths t)"
    and "grows (workspaceCompilerArgs (fst (h (?st s)))) (workspaceCompilerArgs t)"
  then have "sourceFileConfigurations (?st t) = sourceFileConfigurations (?st s)"
    "grows (workspaceBrowsePaths (fst (h (?st s)))) (workspaceBrowsePaths (?st t))"
    "grows (workspaceCompilerArgs (fst (h (?st s)))) (workspaceCompilerArgs (?st t))"
    by simp_all
  with assms have "snd (h (?st t)) = snd (h (?st s)) \<and>
       sourceFileConfigurations (fst (h (?st t))) = sourceFileConfigurations (fst (h (?st s))) \<and>
       workspaceBrowsePaths (fst (h (?st t))) = workspaceBrowsePaths (?st t) \<and>
       workspaceCompilerArgs (fst (h (?st t))) = workspaceCompilerArgs (?st t) \<and>
       follows (workspaceCompiler (?st s)) (workspaceCompiler (fst (h (?st s))))
        (workspaceCompiler (?st t)) (workspaceCompiler (fst (h (?st t)))) \<and>
       follows (workspaceStandard (?st s)) (workspaceStandard (fst (h (?st s))))
        (workspaceStandard (?st t)) (workspaceStandard (fst (h (?st t))))"
    unfolding replays_def by blast
  then show "snd (h (?st t)) = snd (h (?st s)) \<and>
       sourceFileConfigurations (fst (h (?st t))) = sourceFileConfigurations (fst (h (?st s))) \<and>
       workspaceBrowsePaths (fst (h (?st t))) = workspaceBrowsePaths t \<and>
       workspaceCompilerArgs (fst (h (?st t))) = workspaceCompilerArgs t \<and>
       follows (workspaceCompiler s) (workspaceCompiler (fst (h (?st s))))
        (workspaceCompiler t) (workspaceCompiler (fst (h (?st t)))) \<and>
       follows (workspaceStandard s) (workspaceStandard (fst (h (?st s))))
        (workspaceStandard t) (workspaceStandard (fst (h (?st t))))"
    by simp
qed

lemma extends_store:
  assumes "extends h"
  shows "extends (\<lambda>s. h (s\<lparr>sourceFileConfigurations := (sourceFileConfigurations s)(k \<mapsto> item)\<rparr>))"
  unfolding extends_def
proof
  fix s :: "'a provider"
  from assms show "grows (workspaceBrowsePaths s) (workspaceBrowsePaths
            (fst (h (s\<lparr>sourceFileConfigurations := (sourceFileConfigurations s)(k \<mapsto> item)\<rparr>)))) \<and>
        grows (workspaceCompilerArgs s) (workspaceCompilerArgs
            (fst (h (s\<lparr>sourceFileConfigurations := (sourceFileConfigurations s)(k \<mapsto> item)\<rparr>))))"
    unfolding extends_def
    by (drule_tac x = "s\<lparr>sourceFileConfigurations := (sourceFileConfigurations s)(k \<mapsto> item)\<rparr>" in spec) simp
qed

lemma replays_populateWorkspace: "replays (populateWorkspace path vs u incs cargs cpath std)"
proof (cases "workspaceFolders vs")
  case None
  then have "populateWorkspace path vs u incs cargs cpath std = (\<lambda>s. (s, Some TypeError))"
    by (auto simp: populateWorkspace_def)
  then show ?thesis by (simp add: replays_throw)
next
  case (Some folders)
  then have "populateWorkspace path vs u incs cargs cpath std
      = forEach (populateFolder path u incs cargs cpath std) folders"
    by (auto simp: populateWorkspace_def)
  then show ?thesis
    by (simp add: replays_forEach replays_populateFolder extends_populateFolder)
qed

lemma extends_populateWorkspace: "extends (populateWorkspace path vs u incs cargs cpath std)"
proof (cases "workspaceFolders vs")
  case None
  then have "populateWorkspace path vs u incs cargs cpath std = (\<lambda>s. (s, Some TypeError))"
    by (auto simp: populateWorkspace_def)
  then show ?thesis by (simp add: extends_throw)
next
  case (Some folders)
  then have "populateWorkspace path vs u incs cargs cpath std
      = forEach (populateFolder path u incs cargs cpath std) folders"
    by (auto simp: populateWorkspace_def)
  then show ?thesis
    by (simp add: extends_forEach extends_populateFolder)
qed

text \<open>What one command does to the state: nothing (skipped, or thrown before any write),
  or a store into the per-file map followed by the loop over the workspace folders.\<close>

lemma populate_shape:
  "(\<exists>e. populate path vs platform architecture directory file arguments = (\<lambda>this. (this, e))) \<or>
   (\<exists>k item u incs cargs cpath std.
      populate path vs platform architecture directory file arguments =
        (\<lambda>this. populateWorkspace path vs u incs cargs cpath std
           (this\<lparr>sourceFileConfigurations := (sourceFileConfigurations this)(k \<mapsto> item)\<rparr>)))"
proof -
  let ?P = "populate path vs platform architecture directory file arguments"
  have throw: ?thesis if "?P = (\<lambda>this. (this, Some e))" for e
    using that by blast
  show ?thesis
  proof (cases "if path_isAbsolute path file then Uri_file vs file
                else Uri_file vs (path_join path directory file)")
    case (Inl e)
    then show ?thesis by (intro throw[of e]) (simp add: populate_def fun_eq_iff)
  next
    case u: (Inr uri')
    show ?thesis
    proof (cases "stringArray arguments")
      case (Inl e)
      with u show ?thesis by (intro throw[of e]) (simp add: populate_def fun_eq_iff)
    next
      case a: (Inr args)
      show ?thesis
      proof (cases "findIncludePaths path directory args")
        case (Inl e)
        with u a show ?thesis by (intro throw[of e]) (simp add: populate_def fun_eq_iff)
      next
        case i: (Inr incs)
        show ?thesis
        proof (cases "findCompilerArgs path args")
          case (Inl e)
          with u a i show ?thesis by (intro throw[of e]) (simp add: populate_def fun_eq_iff)
        next
          case c: (Inr cargs)
          show ?thesis
          proof (cases "findStandard path args")
            case (Inl e)
            with u a i c show ?thesis by (intro throw[of e]) (simp add: populate_def fun_eq_iff)
          next
            case s: (Inr std)
            show ?thesis
            proof (cases "findDefines path args")
              case (Inl e)
              with u a i c s show ?thesis
                by (intro throw[of e]) (simp add: populate_def fun_eq_iff)
            next
              case d: (Inr defs)
              show ?thesis
              proof (cases "findIntelliSenseMode path args platform architecture")
                case (Inl e)
                with u a i c s d show ?thesis
                  by (intro throw[of e]) (simp add: populate_def fun_eq_iff)
              next
                case (Inr mode)
                with u a i c s d have "?P =
                  (\<lambda>this. populateWorkspace path vs (fsPath vs uri') incs cargs
                      (findCompilerPath args) std
                      (this\<lparr>sourceFileConfigurations := (sourceFileConfigurations this)
                          (fsPath vs uri' \<mapsto>
                             \<lparr>uri = uri',
                              configuration = \<lparr>includePath = incs, defines' = defs,
                                compilerPath = findCompilerPath args, compilerArgs = cargs,
                                standard = std, intelliSenseMode = mode\<rparr>\<rparr>)\<rparr>))"
                  by (simp add: populate_def fun_eq_iff Let_def)
                then show ?thesis by blast
              qed
            qed
          qed
        qed
      qed
    qed
  qed
qed

lemma processCommand_cases:
  "processCommand path vs platform architecture cmd = (\<lambda>this. (this, Some TypeError)) \<or>
   processCommand path vs platform architecture cmd = (\<lambda>this. (this, None)) \<or>
   (\<exists>d f a. processCommand path vs platform architecture cmd =
              populate path vs platform architecture d f a)"
proof (cases "getProperty cmd ''directory''")
  case (Inl e)
  then have "cmd = JNull" by (cases cmd) simp_all
  then show ?thesis by (simp add: processCommand_def fun_eq_iff)
next
  case (Inr directory)
  then have "cmd \<noteq> JNull" by auto
  then obtain "file" arguments where
    "getProperty cmd ''file'' = Inr file" "getProperty cmd ''arguments'' = Inr arguments"
    by (cases cmd) simp_all
  with Inr show ?thesis
    by (cases "typeof directory = ''string'' \<and> typeof file = ''string'' \<and>
               typeof arguments = ''object''")
       (auto simp: processCommand_def fun_eq_iff)
qed

lemma processCommand_shape:
  "(\<exists>e. processCommand path vs platform architecture cmd = (\<lambda>this. (this, e))) \<or>
   (\<exists>k item u incs cargs cpath std.
      processCommand path vs platform architecture cmd =
        (\<lambda>this. populateWorkspace path vs u incs cargs cpath std
           (this\<lparr>sourceFileConfigurations := (sourceFileConfigurations this)(k \<mapsto> item)\<rparr>)))"
  using processCommand_cases[of path vs platform architecture cmd]
proof (elim disjE exE)
  fix d f a
  assume "processCommand path vs platform architecture cmd =
          populate path vs platform architecture d f a"
  with populate_shape[of path vs platform architecture d f a] show ?thesis by simp
qed blast+

lemma replays_processCommand: "replays (processCommand path vs platform architecture cmd)"
  using processCommand_shape[of path vs platform architecture cmd]
proof (elim disjE exE)
  fix e
  assume "processCommand path vs platform architecture cmd = (\<lambda>this. (this, e))"
  then show ?thesis by (simp add: replays_throw)
next
  fix k item u incs cargs cpath std
  assume "processCommand path vs platform architecture cmd =
        (\<lambda>this. populateWorkspace path vs u incs cargs cpath std
           (this\<lparr>sourceFileConfigurations := (sourceFileConfigurations this)(k \<mapsto> item)\<rparr>))"
  then show ?thesis
    by (simp add: replays_store[OF replays_populateWorkspace])
qed

lemma extends_processCommand: "extends (processCommand path vs platform architecture cmd)"
  using processCommand_shape[of path vs platform architecture cmd]
proof (elim disjE exE)
  fix e
  assume "processCommand path vs platform architecture cmd = (\<lambda>this. (this, e))"
  then show ?thesis by (simp add: extends_throw)
next
  fix k item u incs cargs cpath std
  assume "processCommand path vs platform architecture cmd =
        (\<lambda>this. populateWorkspace path vs u incs cargs cpath std
           (this\<lparr>sourceFileConfigurations := (sourceFileConfigurations this)(k \<mapsto> item)\<rparr>))"
  then show ?thesis
    by (simp add: extends_store[OF extends_populateWorkspace])
qed

lemma noDuplicates_pushIfNotExistAt:
  assumes "pushIfNotExistAt m k from = Inr m'" and "\<forall>f xs. m f = Some xs \<longrightarrow> distinct xs"
  shows "\<forall>f xs. m' f = Some xs \<longrightarrow> distinct xs"
  using assms
  by (auto simp: pushIfNotExistAt_def distinct_pushIfNotExist split: option.splits if_splits)

lemma noDuplicates_populateFolder:
  assumes "noDuplicates this"
  shows "noDuplicates (fst (populateFolder path u incs cargs cpath std folder this))"
proof (cases "pushIfNotExistAt (workspaceBrowsePaths this) folder incs")
  case (Inl e)
  with assms show ?thesis by (simp add: populateFolder_def Let_def)
next
  case bp: (Inr bp)
  with assms have dbp: "\<forall>f xs. bp f = Some xs \<longrightarrow> distinct xs"
    unfolding noDuplicates_def by (blast dest: noDuplicates_pushIfNotExistAt)
  show ?thesis
  proof (cases "pushIfNotExistAt (workspaceCompilerArgs this) folder cargs")
    case (Inl e)
    with bp dbp assms show ?thesis by (simp add: populateFolder_def noDuplicates_def Let_def)
  next
    case (Inr ca)
    with assms have "\<forall>f xs. ca f = Some xs \<longrightarrow> distinct xs"
      unfolding noDuplicates_def by (blast dest: noDuplicates_pushIfNotExistAt)
    with Inr bp dbp assms show ?thesis by (simp add: populateFolder_def noDuplicates_def Let_def)
  qed
qed

lemma noDuplicates_populateWorkspace:
  assumes "noDuplicates this"
  shows "noDuplicates (fst (populateWorkspace path vs u incs cargs cpath std this))"
proof (cases "workspaceFolders vs")
  case None
  with assms show ?thesis by (simp add: populateWorkspace_def)
next
  case (Some folders)
  have "noDuplicates (fst (forEach (populateFolder path u incs cargs cpath std) folders this))"
    by (rule forEach_invariant[where I = noDuplicates])
       (simp_all add: noDuplicates_populateFolder assms)
  with Some show ?thesis by (simp add: populateWorkspace_def)
qed

lemma noDuplicates_store:
  "noDuplicates (this\<lparr>sourceFileConfigurations := m\<rparr>) = noDuplicates this"
  by (simp add: noDuplicates_def)

lemma noDuplicates_processCommand:
  assumes "noDuplicates this"
  shows "noDuplicates (fst (processCommand path vs platform architecture cmd this))"
  using processCommand_shape[of path vs platform architecture cmd]
proof (elim disjE exE)
  fix e
  assume "processCommand path vs platform architecture cmd = (\<lambda>this. (this, e))"
  with assms show ?thesis by simp
next
  fix k item u incs cargs cpath std
  assume "processCommand path vs platform architecture cmd =
        (\<lambda>this. populateWorkspace path vs u incs cargs cpath std
           (this\<lparr>sourceFileConfigurations := (sourceFileConfigurations this)(k \<mapsto> item)\<rparr>))"
  with assms show ?thesis
    by (simp add: noDuplicates_populateWorkspace noDuplicates_store)
qed

lemma noDuplicates_updateCompileCommands:
  assumes "noDuplicates this"
  shows "noDuplicates (fst (updateCompileCommands path vs compileCommands platform architecture this))"
proof (cases "\<exists>cmds. compileCommands = JArray cmds")
  case False
  then have "updateCompileCommands path vs compileCommands platform architecture this
      = (this\<lparr>sourceFileConfigurations := Map.empty\<rparr>, Some TypeError)"
    by (cases compileCommands) (simp_all add: updateCompileCommands_def)
  with assms show ?thesis by (simp add: noDuplicates_store)
next
  case True
  then obtain cmds where c: "compileCommands = JArray cmds" by blast
  have "noDuplicates (fst (forEach (processCommand path vs platform architecture) cmds
           (this\<lparr>sourceFileConfigurations := Map.empty\<rparr>)))"
    by (rule forEach_invariant[where I = noDuplicates])
       (simp_all add: noDuplicates_processCommand noDuplicates_store assms)
  with c show ?thesis by (simp add: updateCompileCommands_def)
qed

lemma foldl_empty_lists:
  assumes "\<forall>k xs. m k = Some xs \<longrightarrow> xs = []"
  shows "\<forall>k xs. foldl (\<lambda>m folder. m(folder \<mapsto> [])) m folders k = Some xs \<longrightarrow> xs = []"
  using assms
proof (induction folders arbitrary: m)
  case Nil
  then show ?case by simp
next
  case (Cons folder folders)
  from Cons.prems have "\<forall>k xs. (m(folder \<mapsto> [])) k = Some xs \<longrightarrow> xs = []"
    by simp
  from Cons.IH[OF this] show ?case by simp
qed

lemma noDuplicates_constructor:
  assumes "constructor vs = Inr this"
  shows "noDuplicates this"
proof -
  from assms obtain folders where
    "workspaceBrowsePaths this = foldl (\<lambda>m folder. m(folder \<mapsto> [])) Map.empty folders"
    "workspaceCompilerArgs this = foldl (\<lambda>m folder. m(folder \<mapsto> [])) Map.empty folders"
    by (auto simp: constructor_def split: option.splits)
  moreover have "\<forall>k xs. foldl (\<lambda>m folder. m(folder \<mapsto> [])) Map.empty folders k = Some xs \<longrightarrow> xs = []"
    by (rule foldl_empty_lists) simp
  ultimately show ?thesis
    unfolding noDuplicates_def by (metis distinct.simps(1))
qed

lemma sfc_populateWorkspace:
  "sourceFileConfigurations (fst (populateWorkspace path vs u incs cargs cpath std this))
     = sourceFileConfigurations this"
proof (cases "workspaceFolders vs")
  case None
  then show ?thesis by (simp add: populateWorkspace_def)
next
  case (Some folders)
  have "sourceFileConfigurations (fst (forEach (populateFolder path u incs cargs cpath std) folders this))
        = sourceFileConfigurations this"
    by (rule forEach_invariant
          [where I = "\<lambda>s. sourceFileConfigurations s = sourceFileConfigurations this"])
       (simp_all add: sfc_populateFolder)
  with Some show ?thesis by (simp add: populateWorkspace_def)
qed

lemma rebuild_of_empty_database:
  "updateCompileCommands path vs (JArray []) platform architecture this
     = (this\<lparr>sourceFileConfigurations := Map.empty\<rparr>, None)"
  by (simp add: updateCompileCommands_def)

lemma provideLoop_undefined:
  "provideLoop vs this uris None =
     (if list_ex (\<lambda>u. sourceFileConfigurations this (fsPath vs u) \<noteq> None) uris
      then Inl TypeError else Inr None)"
  by (induction uris) (auto split: option.splits)

lemma provideConfigurations_undefined:
  "provideConfigurations vs this uris =
     (if list_ex (\<lambda>u. sourceFileConfigurations this (fsPath vs u) \<noteq> None) uris
      then Inl TypeError else Inr None)"
  by (simp add: provideConfigurations_def provideLoop_undefined)

lemma malformed_command_is_skipped:
  assumes "getProperty cmd ''directory'' = Inr directory"
    and "getProperty cmd ''file'' = Inr file"
    and "getProperty cmd ''arguments'' = Inr arguments"
    and "\<not> (typeof directory = ''string'' \<and> typeof file = ''string'' \<and> typeof arguments = ''object'')"
  shows "processCommand path vs platform architecture cmd this = (this, None)"
  using assms by (auto simp: processCommand_def)

lemma constructor_editorW: "constructor editorW = Inr indexW"
  by (simp add: constructor_def editorW_def posixEditor_def indexW_def)

lemma findIncludePaths_index1:
  assumes "index1 args = Some compiler"
  shows "findIncludePaths path dir args =
     Inr (map (\<lambda>inc. if path_isAbsolute path (drop 2 inc) then drop 2 inc
                      else path_join path dir (drop 2 inc))
            (filter (prefix (flavorPrefix path compiler @ ''I'')) args))"
  using assms
  by (simp add: findIncludePaths_def isMSVC_index1 startsWith_prefix[abs_def] flavorPrefix_def
        substring_def Let_def)

lemma scenario_stored:
  assumes "Uri_file vs ''/p/a.cpp'' = Inr u"
  shows "sourceFileConfigurations
           (fst (updateCompileCommands (posix cwd) vs (JArray [scenarioCommand]) platform architecture this))
           (fsPath vs u)
         = Some \<lparr> uri = u,
                  configuration = \<lparr> includePath = [''/inc''], defines' = [''FOO''],
                                    compilerPath = Some ''/usr/bin/g++'', compilerArgs = [''-Wall''],
                                    standard = ''c++17'', intelliSenseMode = ''msvc-x86'' \<rparr> \<rparr>"
proof -
  have a: "stringArray (JArray (map JString scenarioArguments)) = Inr scenarioArguments"
    by (simp add: scenarioArguments_def)
  have i: "index1 scenarioArguments = Some ''/usr/bin/g++''"
    by (simp add: scenarioArguments_def index1_def)
  have b: "toLowerCase (path_basename (posix cwd) ''/usr/bin/g++'') = ''g++''"
    by (simp add: posix_simps)
  have m: "isMSVC (posix cwd) scenarioArguments = Inr False"
    by (simp add: isMSVC_index1[OF i] b)
  have h: "findIncludePaths (posix cwd) ''/p'' scenarioArguments = Inr [''/inc'']"
    "findDefines (posix cwd) scenarioArguments = Inr [''FOO'']"
    "findCompilerArgs (posix cwd) scenarioArguments = Inr [''-Wall'']"
    "findStandard (posix cwd) scenarioArguments = Inr ''c++17''"
    "findCompilerPath scenarioArguments = Some ''/usr/bin/g++''"
    by (simp_all add: findIncludePaths_def findDefines_def findCompilerArgs_def findStandard_def
          findCompilerPath_def m i, simp_all add: scenarioArguments_def startsWith_def substring_def
          standardSwitch_def posix_simps)
  have mode: "findIntelliSenseMode (posix cwd) scenarioArguments platform architecture = Inr ''msvc-x86''"
    by (simp add: findIntelliSenseMode_index1[OF i] b)
  have abs: "path_isAbsolute (posix cwd) ''/p/a.cpp''"
    by (simp add: posix_simps)
  have "processCommand (posix cwd) vs platform architecture scenarioCommand s
      = populate (posix cwd) vs platform architecture ''/p'' ''/p/a.cpp''
          (JArray (map JString scenarioArguments)) s" for s
    by (simp add: processCommand_def scenarioCommand_def command_def)
  then have "updateCompileCommands (posix cwd) vs (JArray [scenarioCommand]) platform architecture this
      = (case populate (posix cwd) vs platform architecture ''/p'' ''/p/a.cpp''
                (JArray (map JString scenarioArguments)) (this\<lparr>sourceFileConfigurations := Map.empty\<rparr>) of
           (s', None) \<Rightarrow> (s', None) | (s', Some e) \<Rightarrow> (s', Some e))"
    by (simp add: updateCompileCommands_def)
  then have "fst (updateCompileCommands (posix cwd) vs (JArray [scenarioCommand]) platform architecture this)
      = fst (populate (posix cwd) vs platform architecture ''/p'' ''/p/a.cpp''
                (JArray (map JString scenarioArguments)) (this\<lparr>sourceFileConfigurations := Map.empty\<rparr>))"
    by (simp split: prod.splits option.splits)
  then show ?thesis
    using assms abs a h mode
    by (simp add: populate_def sfc_populateWorkspace Let_def)
qed

lemma rebuild_throws_on_other_arguments:
  "snd (rebuildW (JArray [command ''/p'' ''b.cpp'' (JArray [JString ''gcc''])]) indexW) = Some TypeError \<and>
   snd (rebuildW (JArray [command ''/p'' ''b.cpp'' (JObject [])]) indexW) = Some TypeError \<and>
   snd (rebuildW (JArray [command ''/p'' ''b.cpp''
                            (JArray [JString ''sh'', JString ''gcc'', JNumber 1])]) indexW) = Some TypeError \<and>
   snd (rebuildW (JArray [JNull]) indexW) = Some TypeError \<and>
   snd (rebuildW (JObject []) indexW) = Some TypeError \<and>
   snd (rebuildW (JArray [JObject [(''directory'', JNumber 1), (''file'', JString ''a''),
                                   (''arguments'', JArray [])],
                          JString ''x'', JArray [], scenarioCommand]) indexW) = None"
  by code_simp

section \<open>The rebuild and the file query\<close>

text \<open>
  \<^bold>\<open>C1.\<close> The specification has the rebuild empty the per-file map and every folder's
  aggregate first, so that the index after a rebuild depends on the database, the
  architecture and the workspace folders only. The per-file map is emptied; the aggregates
  are not. In the workspace \<^verbatim>\<open>/w\<close>, a rebuild from the database that holds \<open>otherCommand\<close>
  followed by a rebuild from the empty database leaves the browse paths, the compiler
  arguments, the compiler path and the standard of \<^verbatim>\<open>/w\<close> as the first rebuild set them,
  where the same rebuild from the empty database on the new provider leaves them empty
  and absent.
\<close>

theorem rebuild_keeps_earlier_aggregates:
  "workspaceBrowsePaths (fst (rebuildW (JArray []) (fst (rebuildW (JArray [otherCommand]) indexW)))) ''/w''
     = Some [''/opt/inc'', ''/w/inc''] \<and>
   workspaceCompilerArgs (fst (rebuildW (JArray []) (fst (rebuildW (JArray [otherCommand]) indexW)))) ''/w''
     = Some [''-Wall'', ''-O2'', ''-c''] \<and>
   workspaceCompiler (fst (rebuildW (JArray []) (fst (rebuildW (JArray [otherCommand]) indexW)))) ''/w''
     = Some (Some ''/usr/bin/gcc'') \<and>
   workspaceStandard (fst (rebuildW (JArray []) (fst (rebuildW (JArray [otherCommand]) indexW)))) ''/w''
     = Some ''gnu99'' \<and>
   workspaceBrowsePaths (fst (rebuildW (JArray []) indexW)) ''/w'' = Some [] \<and>
   workspaceCompilerArgs (fst (rebuildW (JArray []) indexW)) ''/w'' = Some [] \<and>
   workspaceCompiler (fst (rebuildW (JArray []) indexW)) ''/w'' = None \<and>
   workspaceStandard (fst (rebuildW (JArray []) indexW)) ''/w'' = None"
  by code_simp

text \<open>
  \<^bold>\<open>C2.\<close> The specification has \<^verbatim>\<open>provideConfigurations\<close> return the configurations of the
  known paths, in order, and never throw. After the scenario's command was indexed, the
  query for its file throws a TypeError, alone or after an unknown path: \<^verbatim>\<open>items\<close> was never
  assigned an array. A query for an unknown path alone resolves to \<^verbatim>\<open>undefined\<close>, not to an
  empty list.
\<close>

theorem provideConfigurations_throws_on_known_file:
  "sourceFileConfigurations (fst (rebuildW (JArray [scenarioCommand]) indexW)) ''/p/a.cpp'' \<noteq> None \<and>
   fsPath editorW (Uri [] ''/p/a.cpp'') = ''/p/a.cpp'' \<and>
   provideConfigurations editorW (fst (rebuildW (JArray [scenarioCommand]) indexW))
     [Uri [] ''/p/a.cpp''] = Inl TypeError \<and>
   provideConfigurations editorW (fst (rebuildW (JArray [scenarioCommand]) indexW))
     [Uri [] ''/p/b.cpp'', Uri [] ''/p/a.cpp''] = Inl TypeError \<and>
   provideConfigurations editorW (fst (rebuildW (JArray [scenarioCommand]) indexW))
     [Uri [] ''/p/b.cpp''] = Inr None"
  by code_simp

text \<open>
  \<^bold>\<open>C3.\<close> The specification has every malformed command skipped, with no effect on the
  others, and the rebuild never raise. A command whose \<^verbatim>\<open>arguments\<close> is \<^verbatim>\<open>null\<close> passes the
  validation, since \<^verbatim>\<open>typeof null\<close> is \<^verbatim>\<open>'object'\<close>; the rebuild then throws a TypeError, and
  the scenario's command that follows it in the database is not indexed, as it is when it
  stands alone.
\<close>

theorem rebuild_throws_on_null_arguments:
  "snd (rebuildW (JArray [command ''/p'' ''b.cpp'' JNull, scenarioCommand]) indexW) = Some TypeError \<and>
   sourceFileConfigurations
     (fst (rebuildW (JArray [command ''/p'' ''b.cpp'' JNull, scenarioCommand]) indexW)) ''/p/a.cpp'' = None \<and>
   snd (rebuildW (JArray [scenarioCommand]) indexW) = None \<and>
   sourceFileConfigurations (fst (rebuildW (JArray [scenarioCommand]) indexW)) ''/p/a.cpp'' \<noteq> None"
  by code_simp

text \<open>
  \<^bold>\<open>C4.\<close> For every database, architecture, platform, host and prior state, a second
  rebuild with the same inputs, run on the state the first one left, ends as the first one
  did (returning, or throwing the same error) and leaves the same index: the same per-file
  map and the same four aggregate maps.
\<close>

theorem rebuild_twice_is_rebuild_once:
  "updateCompileCommands path vs compileCommands platform architecture
     (fst (updateCompileCommands path vs compileCommands platform architecture this))
   = updateCompileCommands path vs compileCommands platform architecture this"
proof (cases "\<exists>cmds. compileCommands = JArray cmds")
  case False
  then have "\<And>s. updateCompileCommands path vs compileCommands platform architecture s
      = (s\<lparr>sourceFileConfigurations := Map.empty\<rparr>, Some TypeError)"
    by (cases compileCommands) (simp_all add: updateCompileCommands_def)
  then show ?thesis by simp
next
  case True
  then obtain cmds where c: "compileCommands = JArray cmds" by blast
  let ?G = "forEach (processCommand path vs platform architecture) cmds"
  let ?s = "this\<lparr>sourceFileConfigurations := Map.empty\<rparr>"
  let ?t = "(fst (?G ?s))\<lparr>sourceFileConfigurations := Map.empty\<rparr>"
  have rep: "replays ?G"
    by (rule replays_forEach) (simp_all add: replays_processCommand extends_processCommand)
  have "sourceFileConfigurations ?t = sourceFileConfigurations ?s"
    "grows (workspaceBrowsePaths (fst (?G ?s))) (workspaceBrowsePaths ?t)"
    "grows (workspaceCompilerArgs (fst (?G ?s))) (workspaceCompilerArgs ?t)"
    by (simp_all add: grows_refl)
  with rep have r: "snd (?G ?t) = snd (?G ?s)"
    "sourceFileConfigurations (fst (?G ?t)) = sourceFileConfigurations (fst (?G ?s))"
    "workspaceBrowsePaths (fst (?G ?t)) = workspaceBrowsePaths ?t"
    "workspaceCompilerArgs (fst (?G ?t)) = workspaceCompilerArgs ?t"
    "follows (workspaceCompiler ?s) (workspaceCompiler (fst (?G ?s)))
             (workspaceCompiler ?t) (workspaceCompiler (fst (?G ?t)))"
    "follows (workspaceStandard ?s) (workspaceStandard (fst (?G ?s)))
             (workspaceStandard ?t) (workspaceStandard (fst (?G ?t)))"
    unfolding replays_def by blast+
  from r(5) have wc: "workspaceCompiler (fst (?G ?t)) = workspaceCompiler (fst (?G ?s))"
    by (auto simp: follows_def fun_eq_iff)
  from r(6) have ws: "workspaceStandard (fst (?G ?t)) = workspaceStandard (fst (?G ?s))"
    by (auto simp: follows_def fun_eq_iff)
  have "fst (?G ?t) = fst (?G ?s)"
    using r(2,3,4) wc ws by (intro provider.equality) simp_all
  with r(1) have "?G ?t = ?G ?s" by (simp add: prod_eq_iff)
  with c show ?thesis by (simp add: updateCompileCommands_def)
qed

text \<open>
  \<^bold>\<open>C6.\<close> The scenario as the specification states it, with the include path
  \<^verbatim>\<open>/p/../inc\<close>, is not what the code stores: \<^verbatim>\<open>path.join\<close> normalises what it joins, and the
  stored include path is \<^verbatim>\<open>/inc\<close>.
\<close>

theorem scenario_includePath_counterexample:
  "map_option (\<lambda>item. includePath (configuration item))
     (sourceFileConfigurations (fst (rebuildW (JArray [scenarioCommand]) indexW)) ''/p/a.cpp'')
   \<noteq> Some [''/p/../inc'']"
  by code_simp

text \<open>
  \<^bold>\<open>C6, as amended.\<close> For every argument vector with a compiler path at index 1, every
  argument that starts with the flavor prefix followed by \<^verbatim>\<open>I\<close> contributes what follows
  its first two characters, as it is when absolute and otherwise as \<^verbatim>\<open>path.join\<close> of the
  directory and it, in the order of the arguments and with repetitions kept. With Node's
  POSIX path module, on every editor that accepts the file's path, whatever the state
  before, the scenario's command is stored with include path \<^verbatim>\<open>/inc\<close>, define \<^verbatim>\<open>FOO\<close>,
  compiler path \<^verbatim>\<open>/usr/bin/g++\<close>, compiler argument \<^verbatim>\<open>-Wall\<close> and standard \<^verbatim>\<open>c++17\<close>.
\<close>

theorem include_paths_are_joined_and_normalised:
  "(index1 args = Some compiler \<longrightarrow>
      findIncludePaths path dir args =
        Inr (map (\<lambda>inc. if path_isAbsolute path (drop 2 inc) then drop 2 inc
                         else path_join path dir (drop 2 inc))
               (filter (prefix (flavorPrefix path compiler @ ''I'')) args))) \<and>
   (Uri_file vs ''/p/a.cpp'' = Inr u \<longrightarrow>
      (\<exists>item. sourceFileConfigurations
                (fst (updateCompileCommands (posix cwd) vs (JArray [scenarioCommand])
                        platform architecture this)) (fsPath vs u) = Some item \<and>
              includePath (configuration item) = [''/inc''] \<and>
              defines' (configuration item) = [''FOO''] \<and>
              compilerPath (configuration item) = Some ''/usr/bin/g++'' \<and>
              compilerArgs (configuration item) = [''-Wall''] \<and>
              standard (configuration item) = ''c++17''))"
  using findIncludePaths_index1[of args compiler path dir]
    scenario_stored[of vs u cwd platform architecture this]
  by simp

theorem include_paths_are_joined_and_normalised_witness:
  "index1 [''sh'', ''/VC/cl'', ''/Iinc'', ''-Ix'', ''/I/abs/inc'', ''/Iinc'', ''/I''] = Some ''/VC/cl'' \<and>
   findIncludePaths (posix ''/'') ''/p/q'' [''sh'', ''/VC/cl'', ''/Iinc'', ''-Ix'', ''/I/abs/inc'', ''/Iinc'', ''/I'']
     = Inr [''/p/q/inc'', ''/abs/inc'', ''/p/q/inc'', ''/p/q''] \<and>
   Uri_file editorW ''/p/a.cpp'' = Inr (Uri [] ''/p/a.cpp'') \<and>
   (\<exists>item. sourceFileConfigurations (fst (rebuildW (JArray [scenarioCommand]) indexW))
              (fsPath editorW (Uri [] ''/p/a.cpp'')) = Some item \<and>
           includePath (configuration item) = [''/inc''] \<and>
           defines' (configuration item) = [''FOO''] \<and>
           compilerPath (configuration item) = Some ''/usr/bin/g++'' \<and>
           compilerArgs (configuration item) = [''-Wall''] \<and>
           standard (configuration item) = ''c++17'')"
proof -
  have i: "index1 [''sh'', ''/VC/cl'', ''/Iinc'', ''-Ix'', ''/I/abs/inc'', ''/Iinc'', ''/I''] = Some ''/VC/cl''"
    by (simp add: index1_def)
  have u: "Uri_file editorW ''/p/a.cpp'' = Inr (Uri [] ''/p/a.cpp'')"
    by (simp add: editorW_def posixEditor_def posix_Uri_file_def startsWith_def)
  note t = include_paths_are_joined_and_normalised
    [of "[''sh'', ''/VC/cl'', ''/Iinc'', ''-Ix'', ''/I/abs/inc'', ''/Iinc'', ''/I'']" "''/VC/cl''"
        "posix ''/''" "''/p/q''" editorW "Uri [] ''/p/a.cpp''" "''/''" "''linux''" "''x86_64''" indexW]
  have "findIncludePaths (posix ''/'') ''/p/q'' [''sh'', ''/VC/cl'', ''/Iinc'', ''-Ix'', ''/I/abs/inc'', ''/Iinc'', ''/I'']
     = Inr [''/p/q/inc'', ''/abs/inc'', ''/p/q/inc'', ''/p/q'']"
    using t[THEN conjunct1, rule_format, OF i]
    by (simp add: flavorPrefix_def posix_simps)
  moreover note t[THEN conjunct2, rule_format, OF u]
  ultimately show ?thesis
    using i u by (simp add: rebuildW_def)
qed

text \<open>
  \<^bold>\<open>C9.\<close> No folder's browse-path list and no folder's compiler-argument list holds a
  string twice: this holds of the provider the constructor builds, every rebuild preserves
  it (whether it returns or throws), and \<^verbatim>\<open>pushIfNotExist\<close> only appends, to the list as it
  was, the incoming elements that were not in it, each once.
\<close>

theorem aggregates_never_hold_duplicates:
  "(constructor vs = Inr this0 \<longrightarrow> noDuplicates this0) \<and>
   (noDuplicates this \<longrightarrow>
      noDuplicates (fst (updateCompileCommands path vs compileCommands platform architecture this))) \<and>
   (\<exists>added. pushIfNotExist to from = to @ added \<and> distinct added \<and> set added = set from - set to)"
  using noDuplicates_constructor[of vs this0]
    noDuplicates_updateCompileCommands[of this path vs compileCommands platform architecture]
    pushIfNotExist_appends[of to "from"]
  by blast

theorem aggregates_never_hold_duplicates_witness:
  "constructor editorW = Inr indexW \<and>
   noDuplicates indexW \<and>
   noDuplicates (fst (rebuildW (JArray [otherCommand, scenarioCommand, otherCommand]) indexW)) \<and>
   workspaceBrowsePaths (fst (rebuildW (JArray [otherCommand, scenarioCommand, otherCommand]) indexW)) ''/w''
     = Some [''/opt/inc'', ''/w/inc'', ''/inc''] \<and>
   workspaceCompilerArgs (fst (rebuildW (JArray [otherCommand, scenarioCommand, otherCommand]) indexW)) ''/w''
     = Some [''-Wall'', ''-O2'', ''-c''] \<and>
   pushIfNotExist [''a'', ''b''] [''b'', ''c'', ''c'', ''a'', ''d''] = [''a'', ''b'', ''c'', ''d'']"
proof -
  note t = aggregates_never_hold_duplicates
    [of editorW indexW indexW "posix ''/''" "JArray [otherCommand, scenarioCommand, otherCommand]"
        "''linux''" "''x86_64''" "[''a'', ''b'']" "[''b'', ''c'', ''c'', ''a'', ''d'']"]
  have c: "constructor editorW = Inr indexW"
    by (rule constructor_editorW)
  from t c have n0: "noDuplicates indexW" by blast
  with t have n1: "noDuplicates (fst (rebuildW (JArray [otherCommand, scenarioCommand, otherCommand]) indexW))"
    unfolding rebuildW_def by blast
  have b: "workspaceBrowsePaths (fst (rebuildW (JArray [otherCommand, scenarioCommand, otherCommand]) indexW)) ''/w''
     = Some [''/opt/inc'', ''/w/inc'', ''/inc'']"
    by code_simp
  have a: "workspaceCompilerArgs (fst (rebuildW (JArray [otherCommand, scenarioCommand, otherCommand]) indexW)) ''/w''
     = Some [''-Wall'', ''-O2'', ''-c'']"
    by code_simp
  have p: "pushIfNotExist [''a'', ''b''] [''b'', ''c'', ''c'', ''a'', ''d''] = [''a'', ''b'', ''c'', ''d'']"
    by simp
  from c n0 n1 b a p show ?thesis by blast
qed

end
